theory Spec2Isabelle
  imports Main "HOL-Library.AList"
begin

section \<open>Data model: React elements as head.tsx sees them\<close>

text \<open>
  Attribute values of an element. The source types props as \<open>any\<close>; the model covers the
  scalar values (strings, integral numbers, booleans, null, undefined), compared by value
  as a JavaScript \<open>Set\<close> does for them.
\<close>

datatype jsval = JUndefined | JNull | JBool bool | JNum int | JStr string

text \<open>
  \<open>h.type\<close>: a host tag given by its name (\<open>'title'\<close>, \<open>'meta'\<close>, ...), \<open>React.Fragment\<close>,
  or some other component, identified by a name.
\<close>

datatype etype = Tag string | Fragment | Component string

text \<open>
  A React node (what a \<open>children\<close> prop may hold) and a React element. \<open>NEmpty\<close> stands for
  \<open>null\<close>, \<open>undefined\<close> and booleans, which render nothing. The \<open>children\<close> prop is kept
  in a field of its own; \<open>props\<close> holds every other prop, in insertion order. \<open>key\<close> is
  \<open>None\<close> for JavaScript's \<open>null\<close>.
\<close>

datatype node = NText string | NNumber int | NEmpty | NArray "node list" | NElem elem
and elem = Elem (elemType: etype) (key: "string option") (props: "(string \<times> jsval) list")
                (children: node)

text \<open>\<open>React.ReactChild\<close>: an element, a string or a number.\<close>

datatype child = CText string | CNumber int | CElem elem

text \<open>\<open>React.RefObject\<close>: a cell with one field.\<close>

record RefObject =
  current :: node

text \<open>\<open>WithInAmpMode\<close>: the optional field is \<open>None\<close> when left out.\<close>

record WithInAmpMode =
  inAmpMode :: "bool option"

section \<open>The React library functions the module calls\<close>

text \<open>
  React is a library the module imports. The functions of this section follow the
  behaviour of \<open>React.Children.toArray\<close> and \<open>React.cloneElement\<close> on the nodes above.
\<close>

text \<open>
  \<open>Number.prototype.toString(radix)\<close> on a natural number, for a radix between 2 and 36.
\<close>

definition digitChar :: "nat \<Rightarrow> char" where
  "digitChar d = ''0123456789abcdefghijklmnopqrstuvwxyz'' ! d"

fun natToString :: "nat \<Rightarrow> nat \<Rightarrow> string" where
  "natToString radix n =
     (if radix < 2 \<or> n < radix then [digitChar n]
      else natToString radix (n div radix) @ [digitChar (n mod radix)])"

declare natToString.simps [simp del]

text \<open>React's escaping of a user-provided key inside a generated key.\<close>

fun escape :: "string \<Rightarrow> string" where
  "escape [] = []"
| "escape (c # cs) =
     (if c = CHR ''='' then ''=0'' else if c = CHR '':'' then ''=2'' else [c]) @ escape cs"

text \<open>
  \<open>getElementKey(element, index)\<close>: \<open>'$'\<close> and the escaped key for an element with a key,
  the index in base 36 for anything else.
\<close>

fun getElementKey :: "node \<Rightarrow> nat \<Rightarrow> string" where
  "getElementKey (NElem e) index =
     (case key e of Some k \<Rightarrow> ''$'' @ escape k | None \<Rightarrow> natToString 36 index)"
| "getElementKey _ index = natToString 36 index"

text \<open>
  \<open>React.Children.toArray\<close>: nested arrays are flattened, empty nodes are left out, strings
  and numbers are kept, and every element is cloned with a generated key: \<open>.$k\<close> for an
  element with key \<open>k\<close>, \<open>.i\<close> for an element without a key at index \<open>i\<close>, and the path
  of indices separated by \<open>:\<close> inside nested arrays. Fragments are not traversed.
\<close>

fun mapIntoArray :: "node \<Rightarrow> string \<Rightarrow> child list"
and mapChildren :: "node list \<Rightarrow> string \<Rightarrow> nat \<Rightarrow> child list" where
  "mapIntoArray NEmpty nameSoFar = []"
| "mapIntoArray (NText s) nameSoFar = [CText s]"
| "mapIntoArray (NNumber n) nameSoFar = [CNumber n]"
| "mapIntoArray (NElem e) nameSoFar =
     [CElem (Elem (elemType e)
        (Some (if nameSoFar = [] then ''.'' @ getElementKey (NElem e) 0 else nameSoFar))
        (props e) (children e))]"
| "mapIntoArray (NArray cs) nameSoFar =
     mapChildren cs (if nameSoFar = [] then ''.'' else nameSoFar @ '':'') 0"
| "mapChildren [] nextNamePrefix i = []"
| "mapChildren (c # cs) nextNamePrefix i =
     mapIntoArray c (nextNamePrefix @ getElementKey c i) @ mapChildren cs nextNamePrefix (Suc i)"

definition toArray :: "node \<Rightarrow> child list" where
  "toArray c = mapIntoArray c []"

text \<open>
  \<open>React.cloneElement(c, { key, className })\<close>: the key is replaced by the given one, as a
  string; \<open>className\<close> is overwritten in place, or added after the other props.
\<close>

definition cloneElement :: "elem \<Rightarrow> string \<Rightarrow> jsval \<Rightarrow> elem" where
  "cloneElement c k className =
     Elem (elemType c) (Some k) (AList.update ''className'' className (props c)) (children c)"

section \<open>head.tsx\<close>

subsection \<open>defaultHead\<close>

definition defaultHead :: "string \<Rightarrow> bool \<Rightarrow> elem list" where
  "defaultHead className inAmp =
     (let head = [Elem (Tag ''meta'') (Some ''charSet'')
                    [(''charSet'', JStr ''utf-8''), (''className'', JStr className)] NEmpty]
      in if \<not> inAmp
         then head @ [Elem (Tag ''meta'') (Some ''viewport'')
                        [(''name'', JStr ''viewport''),
                         (''content'', JStr ''width=device-width,minimum-scale=1,initial-scale=1''),
                         (''className'', JStr className)] NEmpty]
         else head)"

text \<open>The parameter defaults: \<open>className = 'next-head'\<close>, \<open>inAmpMode = false\<close>.\<close>

definition defaultHeadOpt :: "string option \<Rightarrow> bool option \<Rightarrow> elem list" where
  "defaultHeadOpt className inAmp =
     defaultHead (case className of None \<Rightarrow> ''next-head'' | Some c \<Rightarrow> c)
                 (case inAmp of None \<Rightarrow> False | Some b \<Rightarrow> b)"

subsection \<open>onlyReactElement\<close>

fun onlyReactElement :: "elem list \<Rightarrow> child \<Rightarrow> elem list" where
  "onlyReactElement list (CText s) = list"
| "onlyReactElement list (CNumber n) = list"
| "onlyReactElement list (CElem child) =
     (if elemType child = Fragment
      then list @ foldl (\<lambda>fragmentList fragmentChild.
                           case fragmentChild of
                             CText s \<Rightarrow> fragmentList
                           | CNumber n \<Rightarrow> fragmentList
                           | CElem e \<Rightarrow> fragmentList @ [e])
                        [] (toArray (children child))
      else list @ [child])"

subsection \<open>unique\<close>

definition METATYPES :: "string list" where
  "METATYPES = [''name'', ''httpEquiv'', ''charSet'', ''itemProp'']"

text \<open>The four collections the closure returned by \<open>unique()\<close> holds.\<close>

record unique_state =
  keys :: "string set"
  tags :: "string set"
  metaTypes :: "string set"
  metaCategories :: "string \<rightharpoonup> jsval set"

definition unique :: unique_state where
  "unique = \<lparr> keys = {}, tags = {}, metaTypes = {}, metaCategories = Map.empty \<rparr>"

text \<open>\<open>h.key && typeof h.key !== 'number' && h.key.indexOf('.$') === 0\<close>\<close>

definition hasAutoKey :: "elem \<Rightarrow> bool" where
  "hasAutoKey h = (case key h of None \<Rightarrow> False | Some k \<Rightarrow> k \<noteq> [] \<and> take 2 k = ''.$'')"

text \<open>
  \<open>h.props.hasOwnProperty(p)\<close>, for a props object that has no prop named
  \<open>hasOwnProperty\<close> itself: the call then reaches \<open>Object.prototype.hasOwnProperty\<close>.
  The model does not cover an element with such a prop, on which the call would raise.
\<close>

definition hasOwnProperty :: "elem \<Rightarrow> string \<Rightarrow> bool" where
  "hasOwnProperty h p = (map_of (props h) p \<noteq> None)"

text \<open>\<open>h.props[p]\<close>: \<open>undefined\<close> for a prop that is not there.\<close>

definition getProp :: "elem \<Rightarrow> string \<Rightarrow> jsval" where
  "getProp h p = (case map_of (props h) p of None \<Rightarrow> JUndefined | Some v \<Rightarrow> v)"

text \<open>
  The \<open>for\<close> loop over \<open>METATYPES\<close> of the \<open>'meta'\<close> case: the result is \<open>False\<close> where the
  source returns \<open>false\<close> from inside the loop, and the state is returned as the loop left it.
\<close>

fun metaLoop :: "string list \<Rightarrow> elem \<Rightarrow> unique_state \<Rightarrow> bool \<times> unique_state" where
  "metaLoop [] h st = (True, st)"
| "metaLoop (metatype # rest) h st =
     (if \<not> hasOwnProperty h metatype then metaLoop rest h st
      else if metatype = ''charSet''
      then (if metatype \<in> metaTypes st then (False, st)
            else metaLoop rest h (st\<lparr>metaTypes := insert metatype (metaTypes st)\<rparr>))
      else (let category = getProp h metatype;
                categories = (case metaCategories st metatype of None \<Rightarrow> {} | Some s \<Rightarrow> s)
            in if category \<in> categories then (False, st)
               else metaLoop rest h
                      (st\<lparr>metaCategories :=
                            (metaCategories st)(metatype \<mapsto> insert category categories)\<rparr>)))"

text \<open>One call of the filter function that \<open>unique()\<close> returns.\<close>

definition uniqueStep :: "unique_state \<Rightarrow> elem \<Rightarrow> bool \<times> unique_state" where
  "uniqueStep st h =
     (if hasAutoKey h
      then (if the (key h) \<in> keys st then (False, st)
            else (True, st\<lparr>keys := insert (the (key h)) (keys st)\<rparr>))
      else (case elemType h of
              Tag t \<Rightarrow>
                (if t = ''title'' \<or> t = ''base''
                 then (if t \<in> tags st then (False, st)
                       else (True, st\<lparr>tags := insert t (tags st)\<rparr>))
                 else if t = ''meta'' then metaLoop METATYPES h st
                 else (True, st))
            | _ \<Rightarrow> (True, st)))"

text \<open>\<open>.filter(f)\<close> with the stateful \<open>f\<close>, from left to right.\<close>

fun filterUnique :: "unique_state \<Rightarrow> elem list \<Rightarrow> elem list" where
  "filterUnique st [] = []"
| "filterUnique st (h # hs) =
     (case uniqueStep st h of
        (keep, st') \<Rightarrow> (if keep then [h] else []) @ filterUnique st' hs)"

subsection \<open>reduceHeadInstances\<close>

text \<open>
  JavaScript truthiness and string conversion of a prop value. A number is printed in
  decimal, as JavaScript prints an integer of magnitude below \<open>2^53\<close>; the model does
  not cover larger numbers, which JavaScript rounds or prints with an exponent.
\<close>

fun truthy :: "jsval \<Rightarrow> bool" where
  "truthy JUndefined = False"
| "truthy JNull = False"
| "truthy (JBool b) = b"
| "truthy (JNum n) = (n \<noteq> 0)"
| "truthy (JStr s) = (s \<noteq> [])"

fun toString :: "jsval \<Rightarrow> string" where
  "toString JUndefined = ''undefined''"
| "toString JNull = ''null''"
| "toString (JBool b) = (if b then ''true'' else ''false'')"
| "toString (JNum n) = (if n < 0 then ''-'' @ natToString 10 (nat (- n)) else natToString 10 (nat n))"
| "toString (JStr s) = s"

text \<open>The function given to the final \<open>.map\<close>: \<open>c\<close> is the element, \<open>i\<close> its index.\<close>

definition assignKeyClass :: "elem \<Rightarrow> nat \<Rightarrow> elem" where
  "assignKeyClass c i =
     (let className0 = JStr ((if truthy (getProp c ''className'')
                              then toString (getProp c ''className'') @ '' '' else '''')
                             @ ''next-head'');
          className = (if elemType c = Tag ''title'' \<and> \<not> truthy (getProp c ''className'')
                       then JUndefined else className0);
          k = (case key c of
                 None \<Rightarrow> natToString 10 i
               | Some s \<Rightarrow> if s \<noteq> [] then s else natToString 10 i)
      in cloneElement c k className)"

text \<open>The two \<open>reduce\<close> calls: every child of every instance, then the elements among them.\<close>

definition collectChildren :: "RefObject list \<Rightarrow> child list" where
  "collectChildren headInstanceRefs =
     foldl (\<lambda>list headInstanceRef. list @ toArray (current headInstanceRef)) [] headInstanceRefs"

definition flattenInstances :: "RefObject list \<Rightarrow> elem list" where
  "flattenInstances headInstanceRefs = foldl onlyReactElement [] (collectChildren headInstanceRefs)"

text \<open>
  The chain up to \<open>.concat(defaultHead('', options.inAmpMode))\<close>: the list the filter runs
  over, the element it sees first at the head.
\<close>

definition filterInput :: "RefObject list \<Rightarrow> WithInAmpMode \<Rightarrow> elem list" where
  "filterInput headInstanceRefs options =
     rev (flattenInstances headInstanceRefs) @ defaultHeadOpt (Some '''') (inAmpMode options)"

text \<open>The chain up to and including the second \<open>reverse\<close>.\<close>

definition dedupedInstances :: "RefObject list \<Rightarrow> WithInAmpMode \<Rightarrow> elem list" where
  "dedupedInstances headInstanceRefs options =
     rev (filterUnique unique (filterInput headInstanceRefs options))"

definition reduceHeadInstances :: "RefObject list \<Rightarrow> WithInAmpMode \<Rightarrow> elem list" where
  "reduceHeadInstances headInstanceRefs options =
     map (\<lambda>(i, c). assignKeyClass c i) (enumerate 0 (dedupedInstances headInstanceRefs options))"

subsection \<open>The module state, \<open>Head\<close> and \<open>Head.rewind\<close>\<close>

text \<open>
  A JavaScript \<open>Set\<close> iterates in insertion order and holds no element twice: a list,
  with \<open>add\<close> appending an element that is not in it and \<open>delete\<close> removing it.
\<close>

definition Set_add :: "'a \<Rightarrow> 'a list \<Rightarrow> 'a list" where
  "Set_add x xs = (if x \<in> set xs then xs else xs @ [x])"

definition Set_delete :: "'a \<Rightarrow> 'a list \<Rightarrow> 'a list" where
  "Set_delete x xs = removeAll x xs"

text \<open>
  The module's two variables, \<open>headInstanceRefs\<close> and \<open>headState\<close> (\<open>None\<close> is
  \<open>undefined\<close>). A ref object is named by a number; \<open>refCells\<close> gives the cell behind each
  name, and \<open>updates\<close> lists the arguments \<open>updateHead\<close> has been called with.
\<close>

type_synonym ref = nat

record head_module =
  refCells :: "ref \<Rightarrow> RefObject"
  headInstanceRefs :: "ref list"
  headState :: "elem list option"
  updates :: "elem list list"

definition initialModule :: head_module where
  "initialModule =
     \<lparr> refCells = (\<lambda>r. \<lparr> current = NEmpty \<rparr>), headInstanceRefs = [], headState = None,
       updates = [] \<rparr>"

text \<open>\<open>headInstanceRefs.add(instanceRef)\<close> and \<open>headInstanceRefs.delete(instanceRef)\<close>\<close>

definition headInstanceRefs_add :: "ref \<Rightarrow> head_module \<Rightarrow> head_module" where
  "headInstanceRefs_add instanceRef m =
     m\<lparr>headInstanceRefs := Set_add instanceRef (headInstanceRefs m)\<rparr>"

definition headInstanceRefs_delete :: "ref \<Rightarrow> head_module \<Rightarrow> head_module" where
  "headInstanceRefs_delete instanceRef m =
     m\<lparr>headInstanceRefs := Set_delete instanceRef (headInstanceRefs m)\<rparr>"

text \<open>
  \<open>emitUpdate\<close>, with the \<open>inAmpMode\<close> of the instance; \<open>updateHead\<close> tells whether the
  context supplies a callback.
\<close>

definition emitUpdate :: "bool \<Rightarrow> bool \<Rightarrow> head_module \<Rightarrow> head_module" where
  "emitUpdate inAmp updateHead m =
     (let hs = reduceHeadInstances (map (refCells m) (headInstanceRefs m))
                 \<lparr> inAmpMode = Some inAmp \<rparr>
      in m\<lparr>headState := Some hs,
           updates := (if updateHead then updates m @ [hs] else updates m)\<rparr>)"

text \<open>
  The body of \<open>Head\<close> on one render of the instance that owns \<open>instanceRef\<close>;
  \<open>noWindow\<close> is \<open>typeof window === 'undefined'\<close>.
\<close>

definition Head :: "bool \<Rightarrow> ref \<Rightarrow> node \<Rightarrow> bool \<Rightarrow> bool \<Rightarrow> head_module \<Rightarrow> head_module" where
  "Head noWindow instanceRef children' inAmp updateHead m =
     (let m1 = m\<lparr>refCells := (refCells m)(instanceRef := \<lparr> current = children' \<rparr>)\<rparr>
      in if noWindow then emitUpdate inAmp updateHead (headInstanceRefs_add instanceRef m1)
         else m1)"

text \<open>The first effect (on mount), its cleanup (on unmount), and the second effect.\<close>

definition mountEffect :: "ref \<Rightarrow> head_module \<Rightarrow> head_module" where
  "mountEffect instanceRef m = headInstanceRefs_add instanceRef m"

definition unmountCleanup :: "ref \<Rightarrow> bool \<Rightarrow> bool \<Rightarrow> head_module \<Rightarrow> head_module" where
  "unmountCleanup instanceRef inAmp updateHead m =
     emitUpdate inAmp updateHead (headInstanceRefs_delete instanceRef m)"

definition updateEffect :: "bool \<Rightarrow> bool \<Rightarrow> head_module \<Rightarrow> head_module" where
  "updateEffect inAmp updateHead m = emitUpdate inAmp updateHead m"

text \<open>\<open>Head.rewind\<close>: the value returned and the module afterwards.\<close>

definition rewind :: "head_module \<Rightarrow> elem list option \<times> head_module" where
  "rewind m = (headState m, m\<lparr>headState := None, headInstanceRefs := []\<rparr>)"

section \<open>Notions used to state the properties\<close>

text \<open>The set recorded for a meta attribute, empty when none has been stored yet.\<close>

definition categoriesOf :: "unique_state \<Rightarrow> string \<Rightarrow> jsval set" where
  "categoriesOf st metatype = (case metaCategories st metatype of None \<Rightarrow> {} | Some s \<Rightarrow> s)"

text \<open>
  Of the elements of a list that share a key, the last one only: the reading of
  "deduplicated by key, the latest registered survives" on a list in registration order.
\<close>

fun lastByKey :: "elem list \<Rightarrow> elem list" where
  "lastByKey [] = []"
| "lastByKey (h # hs) = (if key h \<in> key ` set hs then lastByKey hs else h # lastByKey hs)"

text \<open>
  The same on a list in the order the filter reads it: of the elements that share a key
  the first one only, \<open>seen\<close> being the keys met so far.
\<close>

fun firstByKey :: "string set \<Rightarrow> elem list \<Rightarrow> elem list" where
  "firstByKey seen [] = []"
| "firstByKey seen (h # hs) =
     (if the (key h) \<in> seen then firstByKey seen hs
      else h # firstByKey (insert (the (key h)) seen) hs)"

text \<open>The elements among the children, in order.\<close>

fun elementsOf :: "child list \<Rightarrow> elem list" where
  "elementsOf [] = []"
| "elementsOf (CElem e # cs) = e # elementsOf cs"
| "elementsOf (c # cs) = elementsOf cs"

text \<open>An element whose key is a non-empty string, so that \<open>c.key || i\<close> is the key.\<close>

definition keyed :: "elem \<Rightarrow> bool" where
  "keyed h = (key h \<noteq> None \<and> key h \<noteq> Some [])"

text \<open>The predicates that select the elements a property speaks of.\<close>

definition plainTag :: "string \<Rightarrow> elem \<Rightarrow> bool" where
  "plainTag t h = (elemType h = Tag t \<and> \<not> hasAutoKey h)"

definition charSetMeta :: "elem \<Rightarrow> bool" where
  "charSetMeta h = (elemType h = Tag ''meta'' \<and> hasOwnProperty h ''charSet'')"

definition namedMeta :: "jsval \<Rightarrow> elem \<Rightarrow> bool" where
  "namedMeta v h =
     (elemType h = Tag ''meta'' \<and> hasOwnProperty h ''name'' \<and> getProp h ''name'' = v)"

text \<open>
  The condition under which the loop over \<open>METATYPES\<close> returns \<open>false\<close> at \<open>metatype\<close>:
  the element has the attribute, and the state holds it already (the attribute itself for
  \<open>charSet\<close>, its value for the others).
\<close>

definition seenBefore :: "unique_state \<Rightarrow> elem \<Rightarrow> string \<Rightarrow> bool" where
  "seenBefore st h metatype =
     (hasOwnProperty h metatype
      \<and> (if metatype = ''charSet'' then metatype \<in> metaTypes st
         else getProp h metatype \<in> categoriesOf st metatype))"

section \<open>Lemmas\<close>

subsection \<open>metaLoop frame and monotonicity\<close>

lemma metaLoop_keys: "keys (snd (metaLoop ms h st)) = keys st"
  by (induction ms arbitrary: st) (auto simp: Let_def)

lemma metaLoop_tags: "tags (snd (metaLoop ms h st)) = tags st"
  by (induction ms arbitrary: st) (auto simp: Let_def)

lemma metaLoop_metaTypes_mono: "metaTypes st \<subseteq> metaTypes (snd (metaLoop ms h st))"
proof (induction ms arbitrary: st)
  case Nil
  show ?case by simp
next
  case (Cons m ms)
  show ?case
    using Cons.IH [of st]
      Cons.IH [of "st\<lparr>metaTypes := insert m (metaTypes st)\<rparr>"]
      Cons.IH [of "st\<lparr>metaCategories := (metaCategories st)(m \<mapsto> insert (getProp h m)
                     (case metaCategories st m of None \<Rightarrow> {} | Some s \<Rightarrow> s))\<rparr>"]
    by (auto simp: Let_def)
qed

lemma metaLoop_categories_mono:
  "categoriesOf st m \<subseteq> categoriesOf (snd (metaLoop ms h st)) m"
proof (induction ms arbitrary: st)
  case Nil
  show ?case by simp
next
  case (Cons a ms)
  let ?st2 = "st\<lparr>metaCategories := (metaCategories st)(a \<mapsto> insert (getProp h a)
                     (case metaCategories st a of None \<Rightarrow> {} | Some s \<Rightarrow> s))\<rparr>"
  have 2: "categoriesOf st m \<subseteq> categoriesOf ?st2 m"
    by (auto simp: categoriesOf_def)
  have 1: "categoriesOf (st\<lparr>metaTypes := insert a (metaTypes st)\<rparr>) m = categoriesOf st m"
    by (simp add: categoriesOf_def)
  show ?case
    using Cons.IH [of st] Cons.IH [of "st\<lparr>metaTypes := insert a (metaTypes st)\<rparr>"]
      Cons.IH [of ?st2] 1 2
    by (auto simp: Let_def)
qed

subsection \<open>uniqueStep by cases\<close>

lemma uniqueStep_auto:
  "hasAutoKey h \<Longrightarrow>
   uniqueStep st h = (the (key h) \<notin> keys st, st\<lparr>keys := insert (the (key h)) (keys st)\<rparr>)"
  by (auto simp: uniqueStep_def insert_absorb)

lemma uniqueStep_tag:
  "\<not> hasAutoKey h \<Longrightarrow> elemType h = Tag t \<Longrightarrow> t = ''title'' \<or> t = ''base'' \<Longrightarrow>
   uniqueStep st h = (t \<notin> tags st, st\<lparr>tags := insert t (tags st)\<rparr>)"
  by (auto simp: uniqueStep_def insert_absorb)

lemma uniqueStep_meta:
  "\<not> hasAutoKey h \<Longrightarrow> elemType h = Tag ''meta'' \<Longrightarrow>
   uniqueStep st h = metaLoop METATYPES h st"
  by (simp add: uniqueStep_def)

lemma uniqueStep_other:
  "\<not> hasAutoKey h \<Longrightarrow> elemType h \<noteq> Tag ''title'' \<Longrightarrow> elemType h \<noteq> Tag ''base'' \<Longrightarrow>
   elemType h \<noteq> Tag ''meta'' \<Longrightarrow> uniqueStep st h = (True, st)"
  by (auto simp: uniqueStep_def split: etype.splits)

lemma uniqueStep_cases:
  obtains (auto) "hasAutoKey h"
  | (tag) t where "\<not> hasAutoKey h" "elemType h = Tag t" "t = ''title'' \<or> t = ''base''"
  | (meta) "\<not> hasAutoKey h" "elemType h = Tag ''meta''"
  | (other) "\<not> hasAutoKey h" "elemType h \<noteq> Tag ''title''" "elemType h \<noteq> Tag ''base''"
      "elemType h \<noteq> Tag ''meta''"
  by (cases "elemType h") auto

lemma uniqueStep_keys_plain: "\<not> hasAutoKey h \<Longrightarrow> keys (snd (uniqueStep st h)) = keys st"
  by (cases h rule: uniqueStep_cases)
     (simp_all add: uniqueStep_tag uniqueStep_meta uniqueStep_other metaLoop_keys)

lemma uniqueStep_tags_mono: "tags st \<subseteq> tags (snd (uniqueStep st h))"
  by (cases h rule: uniqueStep_cases)
     (auto simp: uniqueStep_auto uniqueStep_tag uniqueStep_meta uniqueStep_other metaLoop_tags)

lemma uniqueStep_metaTypes_mono: "metaTypes st \<subseteq> metaTypes (snd (uniqueStep st h))"
  by (cases h rule: uniqueStep_cases)
     (auto simp: uniqueStep_auto uniqueStep_tag uniqueStep_meta uniqueStep_other
        dest: subsetD [OF metaLoop_metaTypes_mono])

lemma uniqueStep_categories_mono:
  "categoriesOf st m \<subseteq> categoriesOf (snd (uniqueStep st h)) m"
  by (cases h rule: uniqueStep_cases)
     (auto simp: uniqueStep_auto uniqueStep_tag uniqueStep_meta uniqueStep_other categoriesOf_def
        dest: subsetD [OF metaLoop_categories_mono, unfolded categoriesOf_def])

subsection \<open>filterUnique\<close>

lemma filterUnique_subset: "set (filterUnique st xs) \<subseteq> set xs"
  by (induction xs arbitrary: st) (auto split: prod.splits)

text \<open>At most one element of a class that the state remembers having let through.\<close>

lemma filterUnique_at_most_one:
  assumes rej: "\<And>st h. P h \<Longrightarrow> seen st \<Longrightarrow> \<not> fst (uniqueStep st h)"
    and mono: "\<And>st h. seen st \<Longrightarrow> seen (snd (uniqueStep st h))"
    and acc: "\<And>st h. P h \<Longrightarrow> fst (uniqueStep st h) \<Longrightarrow> seen (snd (uniqueStep st h))"
  shows "length (filter P (filterUnique st xs)) \<le> (if seen st then 0 else 1)"
proof (induction xs arbitrary: st)
  case Nil
  show ?case by simp
next
  case (Cons h hs)
  obtain keep st' where step: "uniqueStep st h = (keep, st')"
    by (cases "uniqueStep st h")
  have IH: "length (filter P (filterUnique st' hs)) \<le> (if seen st' then 0 else 1)"
    by (rule Cons.IH)
  show ?case
  proof (cases "P h \<and> keep")
    case True
    then have "seen st'" "\<not> seen st"
      using acc [of h st] rej [of h st] step by auto
    then show ?thesis using IH step True by simp
  next
    case False
    have "seen st \<Longrightarrow> seen st'" using mono [of st h] step by simp
    then show ?thesis using IH step False by (auto split: if_splits)
  qed
qed

text \<open>
  A class whose first element marks the state, whether it is kept or not: only that
  first element can get through.
\<close>

lemma filterUnique_first_only:
  assumes rej: "\<And>st h. P h \<Longrightarrow> seen st \<Longrightarrow> \<not> fst (uniqueStep st h)"
    and mono: "\<And>st h. seen st \<Longrightarrow> seen (snd (uniqueStep st h))"
    and mark: "\<And>st h. P h \<Longrightarrow> seen (snd (uniqueStep st h))"
  shows "filter P (filterUnique st xs) = []
         \<or> (\<not> seen st \<and> filter P (filterUnique st xs) = take 1 (filter P xs))"
proof (induction xs arbitrary: st)
  case Nil
  show ?case by simp
next
  case (Cons h hs)
  obtain keep st' where step: "uniqueStep st h = (keep, st')"
    by (cases "uniqueStep st h")
  have seen_all: "filter P (filterUnique s ys) = []" if "seen s" for s ys
    using that
  proof (induction ys arbitrary: s)
    case Nil
    show ?case by simp
  next
    case (Cons y ys)
    obtain k s' where st: "uniqueStep s y = (k, s')" by (cases "uniqueStep s y")
    have "seen s'" using mono [OF Cons.prems, of y] st by simp
    then have "filter P (filterUnique s' ys) = []" by (rule Cons.IH)
    then show ?case using st rej [of y s] Cons.prems by auto
  qed
  show ?case
  proof (cases "P h")
    case True
    then have "seen st'" using mark [of h st] step by simp
    then have rest: "filter P (filterUnique st' hs) = []" by (rule seen_all)
    show ?thesis
    proof (cases keep)
      case True
      then have "\<not> seen st" using rej [of h st] \<open>P h\<close> step by auto
      then show ?thesis using rest step True \<open>P h\<close> by simp
    next
      case False
      then show ?thesis using rest step by simp
    qed
  next
    case False
    have "filter P (filterUnique st' hs) = []
         \<or> (\<not> seen st' \<and> filter P (filterUnique st' hs) = take 1 (filter P hs))"
      by (rule Cons.IH)
    moreover have "seen st \<Longrightarrow> seen st'" using mono [of st h] step by simp
    ultimately show ?thesis using step False by auto
  qed
qed

subsection \<open>Flattening\<close>

lemma foldl_append_concat:
  "foldl (\<lambda>list x. list @ f x) acc xs = acc @ concat (map f xs)"
  by (induction xs arbitrary: acc) simp_all

lemma fragment_foldl_elementsOf:
  "foldl (\<lambda>fragmentList fragmentChild.
            case fragmentChild of CText s \<Rightarrow> fragmentList | CNumber n \<Rightarrow> fragmentList
            | CElem e \<Rightarrow> fragmentList @ [e]) acc cs = acc @ elementsOf cs"
  by (induction cs arbitrary: acc rule: elementsOf.induct) simp_all

lemma onlyReactElement_append:
  "onlyReactElement list c = list @ onlyReactElement [] c"
  by (cases c) simp_all

lemma foldl_onlyReactElement:
  "foldl onlyReactElement acc cs = acc @ concat (map (onlyReactElement []) cs)"
proof (induction cs arbitrary: acc)
  case Nil
  show ?case by simp
next
  case (Cons c cs)
  show ?case
    using Cons.IH [of "onlyReactElement acc c"] onlyReactElement_append [of acc c] by simp
qed

lemma onlyReactElement_single:
  "onlyReactElement [] =
     (\<lambda>c. case c of
        CElem e \<Rightarrow> if elemType e = Fragment then elementsOf (toArray (children e)) else [e]
      | _ \<Rightarrow> [])"
proof
  fix c
  show "onlyReactElement [] c =
     (case c of
        CElem e \<Rightarrow> if elemType e = Fragment then elementsOf (toArray (children e)) else [e]
      | _ \<Rightarrow> [])"
    by (cases c) (simp_all add: fragment_foldl_elementsOf)
qed

lemma flattenInstances_concat:
  "flattenInstances refs =
     concat (map (\<lambda>headInstanceRef.
                    concat (map (\<lambda>c. case c of
                                        CElem e \<Rightarrow>
                                          if elemType e = Fragment
                                          then elementsOf (toArray (children e)) else [e]
                                      | _ \<Rightarrow> [])
                                (toArray (current headInstanceRef))))
                 refs)"
proof -
  have "concat (map g (concat (map f xs))) = concat (map (\<lambda>x. concat (map g (f x))) xs)"
    for g :: "child \<Rightarrow> elem list" and f :: "RefObject \<Rightarrow> child list" and xs
    by (induction xs) simp_all
  then show ?thesis
    by (simp add: flattenInstances_def collectChildren_def foldl_append_concat
          foldl_onlyReactElement onlyReactElement_single)
qed

subsection \<open>Keys after toArray\<close>


lemma mapIntoArray_keyed:
  "\<forall>e. CElem e \<in> set (mapIntoArray n nameSoFar) \<longrightarrow> keyed e"
  "\<forall>e. CElem e \<in> set (mapChildren ns prefix i) \<longrightarrow> keyed e"
  by (induction n nameSoFar and ns prefix i rule: mapIntoArray_mapChildren.induct)
     (auto simp: keyed_def)

lemma elementsOf_set: "set (elementsOf cs) = {e. CElem e \<in> set cs}"
  by (induction cs rule: elementsOf.induct) auto

lemma flattenInstances_keyed: "h \<in> set (flattenInstances refs) \<Longrightarrow> keyed h"
  using mapIntoArray_keyed(1)
  by (auto simp: flattenInstances_concat elementsOf_set toArray_def split: child.splits if_splits)

subsection \<open>The final map\<close>

lemma assignKeyClass_keyed: "keyed c \<Longrightarrow> assignKeyClass c i = assignKeyClass c 0"
  by (auto simp: assignKeyClass_def keyed_def Let_def split: option.splits)

lemma map_enumerate_keyed:
  "\<forall>c \<in> set xs. keyed c \<Longrightarrow>
   map (\<lambda>(i, c). assignKeyClass c i) (enumerate n xs) = map (\<lambda>c. assignKeyClass c 0) xs"
proof (induction xs arbitrary: n)
  case Nil
  show ?case by simp
next
  case (Cons x xs)
  have "assignKeyClass x n = assignKeyClass x 0"
    using Cons.prems by (intro assignKeyClass_keyed) simp
  moreover have "map (\<lambda>(i, c). assignKeyClass c i) (enumerate (Suc n) xs)
      = map (\<lambda>c. assignKeyClass c 0) xs"
    using Cons.prems by (intro Cons.IH) simp
  ultimately show ?case by simp
qed

lemma defaultHead_eq:
  "defaultHead className inAmp =
     Elem (Tag ''meta'') (Some ''charSet'')
       [(''charSet'', JStr ''utf-8''), (''className'', JStr className)] NEmpty
     # (if inAmp then []
        else [Elem (Tag ''meta'') (Some ''viewport'')
                [(''name'', JStr ''viewport''),
                 (''content'', JStr ''width=device-width,minimum-scale=1,initial-scale=1''),
                 (''className'', JStr className)] NEmpty])"
  by (simp add: defaultHead_def)

lemma defaultHeadOpt_keyed: "h \<in> set (defaultHeadOpt cn amp) \<Longrightarrow> keyed h"
  by (auto simp: defaultHeadOpt_def defaultHead_eq keyed_def split: if_splits)

lemma filterInput_keyed: "h \<in> set (filterInput refs options) \<Longrightarrow> keyed h"
  by (auto simp: filterInput_def dest: flattenInstances_keyed defaultHeadOpt_keyed)

lemma dedupedInstances_keyed: "h \<in> set (dedupedInstances refs options) \<Longrightarrow> keyed h"
  using filterUnique_subset [of unique "filterInput refs options"]
  by (auto simp: dedupedInstances_def dest: filterInput_keyed)

lemma reduceHeadInstances_map:
  "reduceHeadInstances refs options
     = map (\<lambda>c. assignKeyClass c 0) (dedupedInstances refs options)"
  unfolding reduceHeadInstances_def
  by (rule map_enumerate_keyed) (simp add: dedupedInstances_keyed)

lemma assignKeyClass_elemType [simp]: "elemType (assignKeyClass c i) = elemType c"
  by (simp add: assignKeyClass_def cloneElement_def Let_def)

lemma digitChar_not_dot: "d < 10 \<Longrightarrow> digitChar d \<noteq> CHR ''.''"
proof -
  assume "d < 10"
  then have "d \<in> {0, 1, 2, 3, 4, 5, 6, 7, 8, 9}" by auto
  then show ?thesis by (auto simp: digitChar_def)
qed

lemma natToString_decimal_hd:
  "natToString 10 n \<noteq> [] \<and> hd (natToString 10 n) \<noteq> CHR ''.''"
proof (induction n rule: less_induct)
  case (less n)
  show ?case
  proof (cases "n < 10")
    case True
    then show ?thesis
      by (subst (1 2) natToString.simps) (simp add: digitChar_not_dot)
  next
    case False
    then have "n div 10 < n" by simp
    from less.IH [OF this] False show ?thesis
      by (subst (1 2) natToString.simps) simp
  qed
qed

lemma assignKeyClass_hasAutoKey [simp]: "hasAutoKey (assignKeyClass c i) = hasAutoKey c"
proof -
  have "take 2 (natToString 10 i) \<noteq> ''.$''"
    using natToString_decimal_hd [of i] by (cases "natToString 10 i") auto
  then show ?thesis
    by (auto simp: assignKeyClass_def cloneElement_def Let_def hasAutoKey_def split: option.splits)
qed


lemma map_of_update_other:
  "p \<noteq> q \<Longrightarrow> map_of (AList.update q v ps) p = map_of ps p"
  by (simp add: update_conv')

lemma assignKeyClass_hasOwnProperty [simp]:
  "p \<noteq> ''className'' \<Longrightarrow> hasOwnProperty (assignKeyClass c i) p = hasOwnProperty c p"
  by (simp add: assignKeyClass_def cloneElement_def Let_def hasOwnProperty_def
        map_of_update_other)

lemma assignKeyClass_getProp [simp]:
  "p \<noteq> ''className'' \<Longrightarrow> getProp (assignKeyClass c i) p = getProp c p"
  by (simp add: assignKeyClass_def cloneElement_def Let_def getProp_def map_of_update_other)

lemma assignKeyClass_children [simp]: "children (assignKeyClass c i) = children c"
  by (simp add: assignKeyClass_def cloneElement_def Let_def)

lemma filter_reduceHeadInstances:
  assumes "\<And>c. P (assignKeyClass c 0) = P c"
  shows "filter P (reduceHeadInstances refs options)
     = map (\<lambda>c. assignKeyClass c 0)
         (rev (filter P (filterUnique unique (filterInput refs options))))"
  by (simp add: reduceHeadInstances_map dedupedInstances_def filter_map comp_def assms rev_filter)

text \<open>The same when an unmarked state lets an element with \<open>Q\<close> through.\<close>

lemma filterUnique_first_if:
  assumes rej: "\<And>st h. P h \<Longrightarrow> seen st \<Longrightarrow> \<not> fst (uniqueStep st h)"
    and mono: "\<And>st h. seen st \<Longrightarrow> seen (snd (uniqueStep st h))"
    and mark: "\<And>st h. P h \<Longrightarrow> seen (snd (uniqueStep st h))"
    and pass: "\<And>st h. P h \<Longrightarrow> Q h \<Longrightarrow> \<not> seen st \<Longrightarrow> fst (uniqueStep st h)"
    and frame: "\<And>st h. \<not> P h \<Longrightarrow> seen (snd (uniqueStep st h)) \<Longrightarrow> seen st"
  shows "\<not> seen st \<Longrightarrow> \<forall>h. take 1 (filter P xs) = [h] \<longrightarrow> Q h \<Longrightarrow>
         filter P (filterUnique st xs) = take 1 (filter P xs)"
proof (induction xs arbitrary: st)
  case Nil
  show ?case by simp
next
  case (Cons h hs)
  obtain keep st' where step: "uniqueStep st h = (keep, st')"
    by (cases "uniqueStep st h")
  show ?case
  proof (cases "P h")
    case True
    then have "Q h" using Cons.prems(2) by simp
    then have "seen st'" "keep"
      using mark [of h st] pass [of h st] Cons.prems(1) True step by auto
    moreover have "filter P (filterUnique st' hs) = []"
      using filterUnique_first_only [of P seen st' hs, OF rej mono mark] \<open>seen st'\<close> by auto
    ultimately show ?thesis using step True by simp
  next
    case False
    then have "\<not> seen st'" using frame [of h st] step Cons.prems(1) by auto
    moreover have "\<forall>h. take 1 (filter P hs) = [h] \<longrightarrow> Q h"
      using Cons.prems(2) False by simp
    ultimately have "filter P (filterUnique st' hs) = take 1 (filter P hs)" by (rule Cons.IH)
    then show ?thesis using step False by simp
  qed
qed

subsection \<open>title and base\<close>

lemma tag_frame:
  assumes "\<not> plainTag t h" "t \<in> tags (snd (uniqueStep st h))"
  shows "t \<in> tags st"
  using assms
  by (cases h rule: uniqueStep_cases)
     (auto simp: uniqueStep_auto uniqueStep_tag uniqueStep_meta uniqueStep_other metaLoop_tags
        plainTag_def)

lemma filterUnique_plainTag:
  assumes t: "t = ''title'' \<or> t = ''base''"
  shows "filter (plainTag t) (filterUnique unique xs) = take 1 (filter (plainTag t) xs)"
proof -
  have rej: "plainTag t h \<Longrightarrow> t \<in> tags st \<Longrightarrow> \<not> fst (uniqueStep st h)" for st h
    using t by (simp add: plainTag_def uniqueStep_tag)
  have mono: "t \<in> tags st \<Longrightarrow> t \<in> tags (snd (uniqueStep st h))" for st h
    using uniqueStep_tags_mono [of st h] by auto
  have mark: "plainTag t h \<Longrightarrow> t \<in> tags (snd (uniqueStep st h))" for st h
    using t by (simp add: plainTag_def uniqueStep_tag)
  have pass: "plainTag t h \<Longrightarrow> True \<Longrightarrow> t \<notin> tags st \<Longrightarrow> fst (uniqueStep st h)" for st h
    using t by (simp add: plainTag_def uniqueStep_tag)
  have frame: "\<not> plainTag t h \<Longrightarrow> t \<in> tags (snd (uniqueStep st h)) \<Longrightarrow> t \<in> tags st" for st h
    by (rule tag_frame)
  have fresh: "t \<notin> tags unique" by (simp add: unique_def)
  have q: "\<forall>h. take 1 (filter (plainTag t) xs) = [h] \<longrightarrow> True" by simp
  show ?thesis
    by (rule filterUnique_first_if
          [of "plainTag t" "\<lambda>st. t \<in> tags st" "\<lambda>h. True", OF rej mono mark pass frame fresh q])
qed

lemma plainTag_assignKeyClass: "plainTag t (assignKeyClass c i) = plainTag t c"
  by (simp add: plainTag_def)

lemma defaultHeadOpt_meta: "h \<in> set (defaultHeadOpt cn amp) \<Longrightarrow> elemType h = Tag ''meta''"
  by (auto simp: defaultHeadOpt_def defaultHead_eq split: if_splits)

lemma defaultHeadOpt_not_auto: "h \<in> set (defaultHeadOpt cn amp) \<Longrightarrow> \<not> hasAutoKey h"
  by (auto simp: defaultHeadOpt_def defaultHead_eq hasAutoKey_def split: if_splits)

lemma take1_rev_length: "length xs \<le> 1 \<Longrightarrow> rev xs = xs"
  by (cases xs) auto

lemma plainTag_survivor:
  assumes t: "t = ''title'' \<or> t = ''base''"
  shows "filter (plainTag t) (reduceHeadInstances refs options)
     = map (\<lambda>c. assignKeyClass c 0) (take 1 (rev (filter (plainTag t) (flattenInstances refs))))"
proof -
  have "filter (plainTag t) (defaultHeadOpt (Some '''') (inAmpMode options)) = []"
    using t by (auto simp: filter_empty_conv plainTag_def dest: defaultHeadOpt_meta)
  then have "filter (plainTag t) (filterInput refs options)
      = rev (filter (plainTag t) (flattenInstances refs))"
    by (simp add: filterInput_def rev_filter)
  then show ?thesis
    by (simp add: filter_reduceHeadInstances plainTag_assignKeyClass
          filterUnique_plainTag [OF t] take1_rev_length)
qed

subsection \<open>charSet\<close>

lemma metaLoop_charSet_reject:
  "hasOwnProperty h ''charSet'' \<Longrightarrow> ''charSet'' \<in> set ms \<Longrightarrow> ''charSet'' \<in> metaTypes st \<Longrightarrow>
   \<not> fst (metaLoop ms h st)"
proof (induction ms arbitrary: st)
  case Nil
  then show ?case by simp
next
  case (Cons m ms)
  show ?case
  proof (cases "m = ''charSet''")
    case True
    then show ?thesis using Cons.prems by simp
  next
    case False
    let ?st2 = "st\<lparr>metaCategories := (metaCategories st)(m \<mapsto> insert (getProp h m)
                     (case metaCategories st m of None \<Rightarrow> {} | Some s \<Rightarrow> s))\<rparr>"
    have "\<not> fst (metaLoop ms h st)" "\<not> fst (metaLoop ms h ?st2)"
      using Cons.prems False Cons.IH [of st] Cons.IH [of ?st2] by auto
    then show ?thesis using False by (simp add: Let_def)
  qed
qed

lemma metaLoop_charSet_accept:
  "hasOwnProperty h ''charSet'' \<Longrightarrow> ''charSet'' \<in> set ms \<Longrightarrow> fst (metaLoop ms h st) \<Longrightarrow>
   ''charSet'' \<in> metaTypes (snd (metaLoop ms h st))"
proof (induction ms arbitrary: st)
  case Nil
  then show ?case by simp
next
  case (Cons m ms)
  show ?case
  proof (cases "m = ''charSet''")
    case True
    have "''charSet'' \<in> metaTypes (snd (metaLoop ms h (st\<lparr>metaTypes := insert ''charSet'' (metaTypes st)\<rparr>)))"
      using metaLoop_metaTypes_mono [of "st\<lparr>metaTypes := insert ''charSet'' (metaTypes st)\<rparr>" ms h]
      by auto
    then show ?thesis using True Cons.prems by (auto split: if_splits)
  next
    case False
    let ?st2 = "st\<lparr>metaCategories := (metaCategories st)(m \<mapsto> insert (getProp h m)
                     (case metaCategories st m of None \<Rightarrow> {} | Some s \<Rightarrow> s))\<rparr>"
    have 1: "fst (metaLoop ms h st) \<Longrightarrow> ''charSet'' \<in> metaTypes (snd (metaLoop ms h st))"
      using Cons.prems False Cons.IH [of st] by auto
    have 2: "fst (metaLoop ms h ?st2) \<Longrightarrow> ''charSet'' \<in> metaTypes (snd (metaLoop ms h ?st2))"
      using Cons.prems False Cons.IH [of ?st2] by auto
    show ?thesis using False 1 2 Cons.prems(3) by (auto simp: Let_def split: if_splits)
  qed
qed

lemma filterUnique_charSet:
  "length (filter (\<lambda>h. charSetMeta h \<and> \<not> hasAutoKey h) (filterUnique st xs))
     \<le> (if ''charSet'' \<in> metaTypes st then 0 else 1)"
proof -
  let ?P = "\<lambda>h. charSetMeta h \<and> \<not> hasAutoKey h"
  have cs: "''charSet'' \<in> set METATYPES" by (simp add: METATYPES_def)
  have rej: "?P h \<Longrightarrow> ''charSet'' \<in> metaTypes st \<Longrightarrow> \<not> fst (uniqueStep st h)" for st h
    using metaLoop_charSet_reject [OF _ cs, of h st]
    by (auto simp: charSetMeta_def uniqueStep_meta)
  have mono: "''charSet'' \<in> metaTypes st \<Longrightarrow> ''charSet'' \<in> metaTypes (snd (uniqueStep st h))"
    for st h
    using uniqueStep_metaTypes_mono [of st h] by auto
  have acc: "?P h \<Longrightarrow> fst (uniqueStep st h) \<Longrightarrow> ''charSet'' \<in> metaTypes (snd (uniqueStep st h))"
    for st h
    using metaLoop_charSet_accept [OF _ cs, of h st]
    by (auto simp: charSetMeta_def uniqueStep_meta)
  show ?thesis
    by (rule filterUnique_at_most_one [of ?P "\<lambda>st. ''charSet'' \<in> metaTypes st", OF rej mono acc])
qed

lemma charSet_at_most_one:
  "length (filter (\<lambda>h. charSetMeta h \<and> \<not> hasAutoKey h) (reduceHeadInstances refs options)) \<le> 1"
proof -
  have "(charSetMeta (assignKeyClass c 0) \<and> \<not> hasAutoKey (assignKeyClass c 0))
      = (charSetMeta c \<and> \<not> hasAutoKey c)" for c
    by (simp add: charSetMeta_def)
  then have "filter (\<lambda>h. charSetMeta h \<and> \<not> hasAutoKey h) (reduceHeadInstances refs options)
     = map (\<lambda>c. assignKeyClass c 0)
         (rev (filter (\<lambda>h. charSetMeta h \<and> \<not> hasAutoKey h)
                (filterUnique unique (filterInput refs options))))"
    by (rule filter_reduceHeadInstances [of "\<lambda>h. charSetMeta h \<and> \<not> hasAutoKey h"])
  then show ?thesis
    using filterUnique_charSet [of unique "filterInput refs options"]
    by (simp add: unique_def)
qed

subsection \<open>name\<close>

lemma metaLoop_head_category:
  "hasOwnProperty h m \<Longrightarrow> m \<noteq> ''charSet'' \<Longrightarrow>
   metaLoop (m # ms) h st =
     (if getProp h m \<in> categoriesOf st m then (False, st)
      else metaLoop ms h
             (st\<lparr>metaCategories :=
                   (metaCategories st)(m \<mapsto> insert (getProp h m) (categoriesOf st m))\<rparr>))"
  by (simp add: categoriesOf_def Let_def)

lemma metaLoop_head_marks:
  assumes "hasOwnProperty h m" "m \<noteq> ''charSet''"
  shows "getProp h m \<in> categoriesOf (snd (metaLoop (m # ms) h st)) m"
proof (cases "getProp h m \<in> categoriesOf st m")
  case True
  then show ?thesis using assms by (simp add: metaLoop_head_category del: metaLoop.simps)
next
  case False
  let ?st2 = "st\<lparr>metaCategories :=
                   (metaCategories st)(m \<mapsto> insert (getProp h m) (categoriesOf st m))\<rparr>"
  have "getProp h m \<in> categoriesOf ?st2 m" by (simp add: categoriesOf_def)
  then have "getProp h m \<in> categoriesOf (snd (metaLoop ms h ?st2)) m"
    using metaLoop_categories_mono [of ?st2 m ms h] by auto
  then show ?thesis using False assms by (simp add: metaLoop_head_category del: metaLoop.simps)
qed

lemma metaLoop_categories_upper:
  "categoriesOf (snd (metaLoop ms h st)) m
     \<subseteq> categoriesOf st m \<union> (if hasOwnProperty h m then {getProp h m} else {})"
proof (induction ms arbitrary: st)
  case Nil
  show ?case by simp
next
  case (Cons a ms)
  let ?U = "if hasOwnProperty h m then {getProp h m} else {}"
  let ?st1 = "st\<lparr>metaTypes := insert a (metaTypes st)\<rparr>"
  let ?st2 = "st\<lparr>metaCategories := (metaCategories st)(a \<mapsto> insert (getProp h a)
                     (case metaCategories st a of None \<Rightarrow> {} | Some s \<Rightarrow> s))\<rparr>"
  have 0: "categoriesOf (snd (metaLoop ms h st)) m \<subseteq> categoriesOf st m \<union> ?U"
    by (rule Cons.IH)
  have "categoriesOf (snd (metaLoop ms h ?st1)) m \<subseteq> categoriesOf ?st1 m \<union> ?U"
    by (rule Cons.IH)
  then have 1: "categoriesOf (snd (metaLoop ms h ?st1)) m \<subseteq> categoriesOf st m \<union> ?U"
    by (simp add: categoriesOf_def)
  have "categoriesOf (snd (metaLoop ms h ?st2)) m \<subseteq> categoriesOf ?st2 m \<union> ?U"
    by (rule Cons.IH)
  moreover have "hasOwnProperty h a \<Longrightarrow> categoriesOf ?st2 m \<subseteq> categoriesOf st m \<union> ?U"
    by (auto simp: categoriesOf_def)
  ultimately have 2: "hasOwnProperty h a \<Longrightarrow>
      categoriesOf (snd (metaLoop ms h ?st2)) m \<subseteq> categoriesOf st m \<union> ?U"
    by blast
  show ?case
  proof (cases "hasOwnProperty h a")
    case False
    then show ?thesis using 0 by simp
  next
    case True
    show ?thesis
    proof (cases "a = ''charSet''")
      case True
      then show ?thesis using 1 \<open>hasOwnProperty h a\<close> by auto
    next
      case False
      then show ?thesis using 2 \<open>hasOwnProperty h a\<close> by (auto simp: Let_def)
    qed
  qed
qed

lemma METATYPES_name: "METATYPES = ''name'' # tl METATYPES"
  by (simp add: METATYPES_def)

lemma name_reject:
  assumes "namedMeta v h \<and> \<not> hasAutoKey h" "v \<in> categoriesOf st ''name''"
  shows "\<not> fst (uniqueStep st h)"
proof -
  have "uniqueStep st h = metaLoop (''name'' # tl METATYPES) h st"
    using assms(1) METATYPES_name by (simp add: namedMeta_def uniqueStep_meta)
  then show ?thesis
    using assms by (simp add: namedMeta_def metaLoop_head_category del: metaLoop.simps)
qed

lemma name_mark:
  assumes "namedMeta v h \<and> \<not> hasAutoKey h"
  shows "v \<in> categoriesOf (snd (uniqueStep st h)) ''name''"
proof -
  have "uniqueStep st h = metaLoop (''name'' # tl METATYPES) h st"
    using assms(1) METATYPES_name by (simp add: namedMeta_def uniqueStep_meta)
  then show ?thesis
    using assms metaLoop_head_marks [of h "''name''" "tl METATYPES" st]
    by (simp add: namedMeta_def del: metaLoop.simps)
qed

lemma name_mono:
  "v \<in> categoriesOf st ''name'' \<Longrightarrow> v \<in> categoriesOf (snd (uniqueStep st h)) ''name''"
  using uniqueStep_categories_mono [of st "''name''" h] by auto

lemma name_pass:
  assumes "namedMeta v h \<and> \<not> hasAutoKey h"
    "\<not> hasOwnProperty h ''httpEquiv'' \<and> \<not> hasOwnProperty h ''charSet''
       \<and> \<not> hasOwnProperty h ''itemProp''"
    "v \<notin> categoriesOf st ''name''"
  shows "fst (uniqueStep st h)"
  using assms
  by (simp add: namedMeta_def uniqueStep_meta METATYPES_def categoriesOf_def)

lemma name_frame:
  assumes "\<not> (namedMeta v h \<and> \<not> hasAutoKey h)"
    "v \<in> categoriesOf (snd (uniqueStep st h)) ''name''"
  shows "v \<in> categoriesOf st ''name''"
proof (cases h rule: uniqueStep_cases)
  case auto
  then show ?thesis using assms(2) by (simp add: uniqueStep_auto categoriesOf_def)
next
  case (tag t)
  then show ?thesis using assms(2) by (simp add: uniqueStep_tag categoriesOf_def)
next
  case meta
  then have "v \<in> categoriesOf st ''name''
      \<union> (if hasOwnProperty h ''name'' then {getProp h ''name''} else {})"
    using assms(2) metaLoop_categories_upper [of METATYPES h st "''name''"]
    by (auto simp: uniqueStep_meta)
  then show ?thesis using assms(1) meta by (auto simp: namedMeta_def split: if_splits)
next
  case other
  then show ?thesis using assms(2) by (simp add: uniqueStep_other)
qed

lemma filterUnique_named:
  "filter (\<lambda>h. namedMeta v h \<and> \<not> hasAutoKey h) (filterUnique unique xs) = []
   \<or> filter (\<lambda>h. namedMeta v h \<and> \<not> hasAutoKey h) (filterUnique unique xs)
       = take 1 (filter (\<lambda>h. namedMeta v h \<and> \<not> hasAutoKey h) xs)"
  using filterUnique_first_only
    [of "\<lambda>h. namedMeta v h \<and> \<not> hasAutoKey h" "\<lambda>st. v \<in> categoriesOf st ''name''" unique xs,
     OF name_reject [of v] name_mono [of v] name_mark [of v]]
  by blast

lemma filterUnique_named_survives:
  assumes "\<forall>h. take 1 (filter (\<lambda>h. namedMeta v h \<and> \<not> hasAutoKey h) xs) = [h] \<longrightarrow>
             \<not> hasOwnProperty h ''httpEquiv'' \<and> \<not> hasOwnProperty h ''charSet''
             \<and> \<not> hasOwnProperty h ''itemProp''"
  shows "filter (\<lambda>h. namedMeta v h \<and> \<not> hasAutoKey h) (filterUnique unique xs)
       = take 1 (filter (\<lambda>h. namedMeta v h \<and> \<not> hasAutoKey h) xs)"
proof -
  have fresh: "v \<notin> categoriesOf unique ''name''"
    by (simp add: unique_def categoriesOf_def)
  show ?thesis
    by (rule filterUnique_first_if
          [of "\<lambda>h. namedMeta v h \<and> \<not> hasAutoKey h" "\<lambda>st. v \<in> categoriesOf st ''name''"
              "\<lambda>h. \<not> hasOwnProperty h ''httpEquiv'' \<and> \<not> hasOwnProperty h ''charSet''
                    \<and> \<not> hasOwnProperty h ''itemProp''",
           OF name_reject [of v] name_mono [of v] name_mark [of v] name_pass [of v] name_frame [of v]
              fresh assms])
qed

lemma named_assignKeyClass:
  "(namedMeta v (assignKeyClass c 0) \<and> \<not> hasAutoKey (assignKeyClass c 0))
     = (namedMeta v c \<and> \<not> hasAutoKey c)"
  by (simp add: namedMeta_def)

subsection \<open>Auto keys\<close>

lemma filterUnique_auto:
  "filter hasAutoKey (filterUnique st xs) = firstByKey (keys st) (filter hasAutoKey xs)"
proof (induction xs arbitrary: st)
  case Nil
  show ?case by simp
next
  case (Cons h hs)
  show ?case
  proof (cases "hasAutoKey h")
    case True
    then show ?thesis
      using Cons.IH [of "st\<lparr>keys := insert (the (key h)) (keys st)\<rparr>"]
      by (simp add: uniqueStep_auto insert_absorb)
  next
    case False
    obtain keep st' where step: "uniqueStep st h = (keep, st')"
      by (cases "uniqueStep st h")
    then have "keys st' = keys st"
      using uniqueStep_keys_plain [OF False, of st] by simp
    then show ?thesis using Cons.IH [of st'] step False by simp
  qed
qed

lemma firstByKey_snoc:
  "firstByKey S (xs @ [h]) =
     firstByKey S xs @ (if the (key h) \<in> S \<union> (\<lambda>x. the (key x)) ` set xs then [] else [h])"
  by (induction xs arbitrary: S) auto

lemma rev_firstByKey:
  "\<forall>h \<in> set ys. key h \<noteq> None \<Longrightarrow> rev (firstByKey {} (rev ys)) = lastByKey ys"
proof (induction ys)
  case Nil
  show ?case by simp
next
  case (Cons h hs)
  have "(the (key h) \<in> (\<lambda>x. the (key x)) ` set hs) = (key h \<in> key ` set hs)"
  proof
    assume "the (key h) \<in> (\<lambda>x. the (key x)) ` set hs"
    then obtain x where x: "x \<in> set hs" "the (key h) = the (key x)" by auto
    then have "key h = key x" using Cons.prems by (auto intro: option.expand)
    then show "key h \<in> key ` set hs" using x(1) by auto
  next
    assume "key h \<in> key ` set hs"
    then obtain x where x: "x \<in> set hs" "key h = key x" by auto
    then show "the (key h) \<in> (\<lambda>x. the (key x)) ` set hs" by auto
  qed
  then show ?case using Cons by (simp add: firstByKey_snoc)
qed

lemma auto_survivors:
  "filter hasAutoKey (reduceHeadInstances refs options)
     = map (\<lambda>c. assignKeyClass c 0) (lastByKey (filter hasAutoKey (flattenInstances refs)))"
proof -
  have "filter hasAutoKey (defaultHeadOpt (Some '''') (inAmpMode options)) = []"
    by (auto simp: filter_empty_conv dest: defaultHeadOpt_not_auto)
  then have "filter hasAutoKey (filterInput refs options)
      = rev (filter hasAutoKey (flattenInstances refs))"
    by (simp add: filterInput_def rev_filter)
  moreover have "\<forall>h \<in> set (filter hasAutoKey (flattenInstances refs)). key h \<noteq> None"
    by (auto simp: hasAutoKey_def split: option.splits)
  ultimately show ?thesis
    by (simp add: filter_reduceHeadInstances filterUnique_auto unique_def rev_firstByKey)
qed

subsection \<open>A rejected meta element leaves its mark\<close>

lemma rejected_name_recorded:
  assumes "elemType h = Tag ''meta''" "\<not> hasAutoKey h" "hasOwnProperty h ''name''"
  shows "getProp h ''name'' \<in> categoriesOf (snd (uniqueStep st h)) ''name''"
  using name_mark [of "getProp h ''name''" h st] assms by (simp add: namedMeta_def)

subsection \<open>Evaluation on concrete inputs\<close>

lemmas head_eval =
  reduceHeadInstances_map dedupedInstances_def filterInput_def flattenInstances_def
  collectChildren_def toArray_def natToString.simps digitChar_def defaultHeadOpt_def
  defaultHead_eq unique_def uniqueStep_def hasAutoKey_def METATYPES_def hasOwnProperty_def
  getProp_def assignKeyClass_def cloneElement_def

lemma metaLoop_records:
  "(hasOwnProperty h ''name'' \<longrightarrow>
      getProp h ''name'' \<in> categoriesOf (snd (metaLoop METATYPES h st)) ''name'')
   \<and> (hasOwnProperty h ''httpEquiv'' \<and> \<not> seenBefore st h ''name'' \<longrightarrow>
      getProp h ''httpEquiv'' \<in> categoriesOf (snd (metaLoop METATYPES h st)) ''httpEquiv'')
   \<and> (hasOwnProperty h ''charSet'' \<and> \<not> seenBefore st h ''name''
        \<and> \<not> seenBefore st h ''httpEquiv'' \<longrightarrow>
      ''charSet'' \<in> metaTypes (snd (metaLoop METATYPES h st)))
   \<and> (hasOwnProperty h ''itemProp'' \<and> \<not> seenBefore st h ''name''
        \<and> \<not> seenBefore st h ''httpEquiv'' \<and> \<not> seenBefore st h ''charSet'' \<longrightarrow>
      getProp h ''itemProp'' \<in> categoriesOf (snd (metaLoop METATYPES h st)) ''itemProp'')
   \<and> fst (metaLoop METATYPES h st)
       = (\<not> seenBefore st h ''name'' \<and> \<not> seenBefore st h ''httpEquiv''
          \<and> \<not> seenBefore st h ''charSet'' \<and> \<not> seenBefore st h ''itemProp'')"
  by (simp add: METATYPES_def seenBefore_def categoriesOf_def Let_def)

lemma rejected_name_blocks:
  assumes "elemType h = Tag ''meta''" "\<not> hasAutoKey h" "hasOwnProperty h ''name''"
    and "\<not> fst (uniqueStep st h)"
  shows "filter (\<lambda>x. namedMeta (getProp h ''name'') x \<and> \<not> hasAutoKey x)
           (filterUnique st (h # hs)) = []"
proof -
  let ?v = "getProp h ''name''"
  let ?P = "\<lambda>x. namedMeta ?v x \<and> \<not> hasAutoKey x"
  obtain st' where step: "uniqueStep st h = (False, st')"
    using assms(4) by (cases "uniqueStep st h") auto
  have "?v \<in> categoriesOf (snd (uniqueStep st h)) ''name''"
    using assms(1-3) by (rule rejected_name_recorded)
  then have seen: "?v \<in> categoriesOf st' ''name''" using step by simp
  have "filter ?P (filterUnique st' hs) = []
      \<or> (?v \<notin> categoriesOf st' ''name''
          \<and> filter ?P (filterUnique st' hs) = take 1 (filter ?P hs))"
    by (rule filterUnique_first_only
          [of ?P "\<lambda>st. ?v \<in> categoriesOf st ''name''" st' hs,
           OF name_reject [of ?v] name_mono [of ?v] name_mark [of ?v]])
  then have "filter ?P (filterUnique st' hs) = []" using seen by blast
  then show ?thesis using step by simp
qed

section \<open>Properties\<close>

subsection \<open>The default contribution\<close>

text \<open>
  C8. \<open>defaultHead\<close> is a function of the class name and the amp flag alone. In normal
  mode it returns exactly two elements, the charSet meta and then the viewport meta with
  its fixed content; in amp mode it returns exactly one element, the charSet meta, and no
  viewport meta.
\<close>

theorem defaultHead_elements:
  "defaultHead className False =
     [Elem (Tag ''meta'') (Some ''charSet'')
        [(''charSet'', JStr ''utf-8''), (''className'', JStr className)] NEmpty,
      Elem (Tag ''meta'') (Some ''viewport'')
        [(''name'', JStr ''viewport''),
         (''content'', JStr ''width=device-width,minimum-scale=1,initial-scale=1''),
         (''className'', JStr className)] NEmpty]
   \<and> defaultHead className True =
     [Elem (Tag ''meta'') (Some ''charSet'')
        [(''charSet'', JStr ''utf-8''), (''className'', JStr className)] NEmpty]
   \<and> length (defaultHead className False) = 2
   \<and> length (defaultHead className True) = 1
   \<and> filter (namedMeta (JStr ''viewport'')) (defaultHead className True) = []"
  by (simp add: defaultHead_eq namedMeta_def hasOwnProperty_def)

subsection \<open>No instance registered\<close>

lemma filterUnique_defaultHead:
  "filterUnique unique (defaultHead className inAmp) = defaultHead className inAmp"
  by (cases inAmp)
     (simp_all add: defaultHead_eq unique_def uniqueStep_def hasAutoKey_def METATYPES_def
        hasOwnProperty_def getProp_def)

lemma reduceHeadInstances_Nil:
  "reduceHeadInstances [] options
     = map (\<lambda>c. assignKeyClass c 0)
         (rev (defaultHead '''' (case inAmpMode options of None \<Rightarrow> False | Some b \<Rightarrow> b)))"
  by (simp add: reduceHeadInstances_map dedupedInstances_def filterInput_def
        flattenInstances_def collectChildren_def defaultHeadOpt_def filterUnique_defaultHead)

text \<open>
  C1, as stated, fails: with no instance registered and amp mode off, the first element
  of the result is the viewport meta and the second the charSet meta.
\<close>

theorem no_instances_order_counterexample:
  "map key (reduceHeadInstances [] \<lparr> inAmpMode = Some False \<rparr>)
     = [Some ''viewport'', Some ''charSet'']"
  by (simp add: reduceHeadInstances_Nil defaultHead_eq assignKeyClass_def cloneElement_def)

text \<open>
  C1, amended. With no instance registered and amp mode off (or left out of the options),
  the result is the default contribution with class \<open>next-head\<close> in reverse order: the
  viewport meta first, the charSet meta second.
\<close>

theorem no_instances_reversed_defaults:
  "reduceHeadInstances [] \<lparr> inAmpMode = Some False \<rparr> = rev (defaultHead ''next-head'' False)
   \<and> reduceHeadInstances [] \<lparr> inAmpMode = None \<rparr> = rev (defaultHead ''next-head'' False)
   \<and> rev (defaultHead ''next-head'' False) =
     [Elem (Tag ''meta'') (Some ''viewport'')
        [(''name'', JStr ''viewport''),
         (''content'', JStr ''width=device-width,minimum-scale=1,initial-scale=1''),
         (''className'', JStr ''next-head'')] NEmpty,
      Elem (Tag ''meta'') (Some ''charSet'')
        [(''charSet'', JStr ''utf-8''), (''className'', JStr ''next-head'')] NEmpty]"
  by (simp add: reduceHeadInstances_Nil defaultHead_eq assignKeyClass_def cloneElement_def
        getProp_def)

subsection \<open>The flatten step\<close>

text \<open>
  C6, as stated, fails: a fragment inside a fragment is not replaced by its children. For
  one instance whose child is a fragment holding a fragment holding a title, the flatten
  step returns the inner fragment, and the title stays inside it.
\<close>

theorem flatten_nested_fragment_counterexample:
  "flattenInstances
     [\<lparr> current =
          NElem (Elem Fragment None []
            (NElem (Elem Fragment None []
              (NArray [NText ''a'', NElem (Elem (Tag ''title'') None [] (NText ''t''))])))) \<rparr>]
   = [Elem Fragment (Some ''.0'') []
        (NArray [NText ''a'', NElem (Elem (Tag ''title'') None [] (NText ''t''))])]"
  by (simp add: flattenInstances_def collectChildren_def toArray_def natToString.simps
        digitChar_def)

text \<open>
  C6, amended. The flatten step concatenates the children of all instances in registration
  order, as \<open>React.Children.toArray\<close> lists them; it leaves out the strings and numbers
  among them, and replaces each fragment among them by the elements among the fragment's
  own children (strings and numbers left out). It goes one level deep: an element found
  inside a fragment is kept as it is, also when it is a fragment.
\<close>

theorem flatten_one_level:
  "flattenInstances refs =
     concat (map (\<lambda>headInstanceRef.
                    concat (map (\<lambda>c. case c of
                                        CElem e \<Rightarrow>
                                          if elemType e = Fragment
                                          then elementsOf (toArray (children e)) else [e]
                                      | _ \<Rightarrow> [])
                                (toArray (current headInstanceRef))))
                 refs)"
  by (rule flattenInstances_concat)

theorem flatten_one_level_witness:
  "flattenInstances
     [\<lparr> current = NArray
          [NText ''x'',
           NElem (Elem Fragment None []
             (NArray [NText ''y'', NElem (Elem (Tag ''meta'') None [] NEmpty), NNumber 3,
                      NElem (Elem (Tag ''base'') (Some ''b'') [] NEmpty)])),
           NElem (Elem (Tag ''title'') None [] (NText ''t''))] \<rparr>,
      \<lparr> current = NElem (Elem (Tag ''link'') None [] NEmpty) \<rparr>]
   = [Elem (Tag ''meta'') (Some ''.1'') [] NEmpty,
      Elem (Tag ''base'') (Some ''.$b'') [] NEmpty,
      Elem (Tag ''title'') (Some ''.2'') [] (NText ''t''),
      Elem (Tag ''link'') (Some ''.0'') [] NEmpty]"
  by (simp add: flatten_one_level toArray_def natToString.simps digitChar_def)

subsection \<open>The registry and \<open>rewind\<close>\<close>

text \<open>
  C5. \<open>rewind\<close> right after \<open>emitUpdate\<close> returns exactly the result \<open>emitUpdate\<close> has
  computed; a second \<open>rewind\<close> with no \<open>emitUpdate\<close> in between returns \<open>undefined\<close>; and
  after any \<open>rewind\<close> the set of instances is empty and \<open>headState\<close> is \<open>undefined\<close>.
  In particular, after one render without a window in a fresh module, \<open>rewind\<close> returns the
  merged head of that one instance.
\<close>

theorem rewind_after_emitUpdate:
  "fst (rewind (emitUpdate inAmp updateHead m))
     = Some (reduceHeadInstances (map (refCells m) (headInstanceRefs m))
               \<lparr> inAmpMode = Some inAmp \<rparr>)
   \<and> fst (rewind (snd (rewind m))) = None
   \<and> headInstanceRefs (snd (rewind m)) = []
   \<and> headState (snd (rewind m)) = None
   \<and> fst (rewind (Head True r c inAmp updateHead initialModule))
       = Some (reduceHeadInstances [\<lparr> current = c \<rparr>] \<lparr> inAmpMode = Some inAmp \<rparr>)"
  by (simp add: rewind_def emitUpdate_def Head_def headInstanceRefs_add_def Set_add_def
        initialModule_def Let_def)

text \<open>
  C9. Adding an instance that is in the set and deleting one that is not leave the module
  as it is: adding twice gives what adding once gives, and so does deleting twice. Both
  are total functions; no error is possible. The same holds of the places that call them:
  the mount effect, the unmount cleanup and the render without a window leave the same
  set of instances when they run a second time.
\<close>

theorem add_delete_idempotent:
  "headInstanceRefs_add h (headInstanceRefs_add h m) = headInstanceRefs_add h m
   \<and> headInstanceRefs_delete h (headInstanceRefs_delete h m) = headInstanceRefs_delete h m
   \<and> (h \<in> set (headInstanceRefs m) \<longrightarrow> headInstanceRefs_add h m = m)
   \<and> (h \<notin> set (headInstanceRefs m) \<longrightarrow> headInstanceRefs_delete h m = m)
   \<and> mountEffect h (mountEffect h m) = mountEffect h m
   \<and> headInstanceRefs (unmountCleanup h inAmp updateHead (unmountCleanup h inAmp updateHead m))
       = headInstanceRefs (unmountCleanup h inAmp updateHead m)
   \<and> headInstanceRefs (Head True h c inAmp updateHead (Head True h c inAmp updateHead m))
       = headInstanceRefs (Head True h c inAmp updateHead m)"
  by (simp add: headInstanceRefs_add_def headInstanceRefs_delete_def Set_add_def Set_delete_def
        mountEffect_def unmountCleanup_def Head_def emitUpdate_def Let_def)

theorem add_delete_idempotent_witness:
  "headInstanceRefs (headInstanceRefs_add 1 (headInstanceRefs_add 1 initialModule)) = [1]
   \<and> headInstanceRefs_add 1 (headInstanceRefs_add 1 initialModule)
       = headInstanceRefs_add 1 initialModule
   \<and> headInstanceRefs_delete 1 initialModule = initialModule
   \<and> headInstanceRefs_delete 2 (headInstanceRefs_delete 2 (headInstanceRefs_add 2 initialModule))
       = initialModule"
  using add_delete_idempotent [of 1 initialModule]
    add_delete_idempotent [of 2 "headInstanceRefs_add 2 initialModule"]
  by (simp add: headInstanceRefs_add_def headInstanceRefs_delete_def Set_add_def Set_delete_def
        initialModule_def)

subsection \<open>title and base\<close>

text \<open>
  C2, as stated, fails: two titles that reach the filter with the keys \<open>.$a\<close> and
  \<open>.$b\<close> (children of one instance with the keys \<open>a\<close> and \<open>b\<close>) both come out, since
  an element whose key starts with \<open>.$\<close> is checked against the keys only.
\<close>

theorem keyed_titles_counterexample:
  "filter (\<lambda>h. elemType h = Tag ''title'')
     (reduceHeadInstances
        [\<lparr> current = NArray
             [NElem (Elem (Tag ''title'') (Some ''a'') [] (NText ''A'')),
              NElem (Elem (Tag ''title'') (Some ''b'') [] (NText ''B''))] \<rparr>]
        \<lparr> inAmpMode = Some False \<rparr>)
   = [Elem (Tag ''title'') (Some ''.$a'') [(''className'', JUndefined)] (NText ''A''),
      Elem (Tag ''title'') (Some ''.$b'') [(''className'', JUndefined)] (NText ''B'')]"
  by (simp add: head_eval)

text \<open>
  C2, amended. Whatever instances are registered, the result holds at most one title and
  at most one base among the elements whose key, as the filter reads it (the key that
  \<open>React.Children.toArray\<close> has generated), does not start with \<open>.$\<close>. The one that
  comes out is the last title (or base) with such a key in the flattened contributions, the
  most recently registered one. It always comes from an instance: the defaults hold neither.
\<close>

theorem title_base_at_most_one:
  "length (filter (plainTag ''title'') (reduceHeadInstances refs options)) \<le> 1
   \<and> length (filter (plainTag ''base'') (reduceHeadInstances refs options)) \<le> 1
   \<and> filter (plainTag ''title'') (reduceHeadInstances refs options)
       = map (\<lambda>c. assignKeyClass c 0)
           (take 1 (rev (filter (plainTag ''title'') (flattenInstances refs))))
   \<and> filter (plainTag ''base'') (reduceHeadInstances refs options)
       = map (\<lambda>c. assignKeyClass c 0)
           (take 1 (rev (filter (plainTag ''base'') (flattenInstances refs))))"
  by (simp add: plainTag_survivor)

theorem title_base_at_most_one_witness:
  "filter (plainTag ''title'')
     (reduceHeadInstances
        [\<lparr> current = NElem (Elem (Tag ''title'') None [] (NText ''A'')) \<rparr>,
         \<lparr> current = NArray
             [NElem (Elem (Tag ''title'') None [] (NText ''B'')),
              NElem (Elem (Tag ''title'') None [] (NText ''C''))] \<rparr>]
        \<lparr> inAmpMode = Some False \<rparr>)
   = [Elem (Tag ''title'') (Some ''.1'') [(''className'', JUndefined)] (NText ''C'')]"
  using title_base_at_most_one
     [of "[\<lparr> current = NElem (Elem (Tag ''title'') None [] (NText ''A'')) \<rparr>,
         \<lparr> current = NArray
             [NElem (Elem (Tag ''title'') None [] (NText ''B'')),
              NElem (Elem (Tag ''title'') None [] (NText ''C''))] \<rparr>]"
         "\<lparr> inAmpMode = Some False \<rparr>"]
  by (simp add: flattenInstances_def collectChildren_def toArray_def natToString.simps
        digitChar_def plainTag_def hasAutoKey_def assignKeyClass_def cloneElement_def getProp_def)

subsection \<open>charSet\<close>

text \<open>
  C3, as stated, fails: a meta with a charSet attribute that reaches the filter with the
  key \<open>.$x\<close> (the one child of an instance, with the key \<open>x\<close>) is checked against the
  keys only, so it comes out beside the default charSet meta.
\<close>

theorem keyed_charSet_counterexample:
  "filter charSetMeta
     (reduceHeadInstances
        [\<lparr> current = NElem (Elem (Tag ''meta'') (Some ''x'') [(''charSet'', JStr ''utf-8'')] NEmpty) \<rparr>]
        \<lparr> inAmpMode = Some False \<rparr>)
   = [Elem (Tag ''meta'') (Some ''charSet'')
        [(''charSet'', JStr ''utf-8''), (''className'', JStr ''next-head'')] NEmpty,
      Elem (Tag ''meta'') (Some ''.$x'')
        [(''charSet'', JStr ''utf-8''), (''className'', JStr ''next-head'')] NEmpty]"
  by (simp add: head_eval charSetMeta_def)

text \<open>
  C3, amended. Whatever instances are registered, at most one meta carrying a charSet
  attribute comes out among the elements whose key, as the filter reads it (the key that
  \<open>React.Children.toArray\<close> has generated, or the key of a default), does not start with
  \<open>.$\<close>; the defaults are among these elements.
\<close>

theorem charSet_at_most_one_plain:
  "length (filter (\<lambda>h. charSetMeta h \<and> \<not> hasAutoKey h) (reduceHeadInstances refs options)) \<le> 1"
  by (rule charSet_at_most_one)

theorem charSet_at_most_one_plain_witness:
  "length (filter (\<lambda>h. charSetMeta h \<and> \<not> hasAutoKey h)
     (reduceHeadInstances
        [\<lparr> current = NElem (Elem (Tag ''meta'') None [(''charSet'', JStr ''utf-8'')] NEmpty) \<rparr>,
         \<lparr> current = NElem (Elem (Tag ''meta'') None [(''charSet'', JStr ''latin1'')] NEmpty) \<rparr>]
        \<lparr> inAmpMode = Some False \<rparr>)) \<le> 1
   \<and> filter (\<lambda>h. charSetMeta h \<and> \<not> hasAutoKey h)
     (reduceHeadInstances
        [\<lparr> current = NElem (Elem (Tag ''meta'') None [(''charSet'', JStr ''utf-8'')] NEmpty) \<rparr>,
         \<lparr> current = NElem (Elem (Tag ''meta'') None [(''charSet'', JStr ''latin1'')] NEmpty) \<rparr>]
        \<lparr> inAmpMode = Some False \<rparr>)
     = [Elem (Tag ''meta'') (Some ''.0'')
          [(''charSet'', JStr ''latin1''), (''className'', JStr ''next-head'')] NEmpty]"
  using charSet_at_most_one_plain
     [of "[\<lparr> current = NElem (Elem (Tag ''meta'') None [(''charSet'', JStr ''utf-8'')] NEmpty) \<rparr>,
         \<lparr> current = NElem (Elem (Tag ''meta'') None [(''charSet'', JStr ''latin1'')] NEmpty) \<rparr>]"
         "\<lparr> inAmpMode = Some False \<rparr>"]
  by (simp add: head_eval charSetMeta_def)

subsection \<open>name\<close>

text \<open>
  C4, as stated, fails twice. Two metas with the same name that reach the filter with the
  keys \<open>.$a\<close> and \<open>.$b\<close> both come out. And of two metas with different names that both
  carry a charSet attribute, only the later one comes out.
\<close>

theorem named_meta_counterexample:
  "filter (namedMeta (JStr ''description''))
     (reduceHeadInstances
        [\<lparr> current = NElem (Elem (Tag ''meta'') (Some ''a'')
             [(''name'', JStr ''description''), (''content'', JStr ''x'')] NEmpty) \<rparr>,
         \<lparr> current = NElem (Elem (Tag ''meta'') (Some ''b'')
             [(''name'', JStr ''description''), (''content'', JStr ''y'')] NEmpty) \<rparr>]
        \<lparr> inAmpMode = Some False \<rparr>)
   = [Elem (Tag ''meta'') (Some ''.$a'')
        [(''name'', JStr ''description''), (''content'', JStr ''x''),
         (''className'', JStr ''next-head'')] NEmpty,
      Elem (Tag ''meta'') (Some ''.$b'')
        [(''name'', JStr ''description''), (''content'', JStr ''y''),
         (''className'', JStr ''next-head'')] NEmpty]
   \<and> map (\<lambda>h. getProp h ''name'')
     (reduceHeadInstances
        [\<lparr> current = NElem (Elem (Tag ''meta'') None
             [(''name'', JStr ''author''), (''charSet'', JStr ''utf-8'')] NEmpty) \<rparr>,
         \<lparr> current = NElem (Elem (Tag ''meta'') None
             [(''name'', JStr ''robots''), (''charSet'', JStr ''utf-8'')] NEmpty) \<rparr>]
        \<lparr> inAmpMode = Some False \<rparr>)
   = [JStr ''viewport'', JStr ''robots'']"
  by (simp add: head_eval namedMeta_def)

text \<open>
  C4, amended. Among the metas whose key, as the filter reads it (the key that
  \<open>React.Children.toArray\<close> has generated, or the key of a default), does not start with
  \<open>.$\<close>, at most one with a given value of the name attribute comes out, and it can
  only be the one of them that the filter reads first: the latest registered one, a default
  counting as registered before every instance. That one does come out when it carries
  none of httpEquiv, charSet and itemProp. In the example of the two description metas
  (each the one child of its instance, without a key), exactly one comes out, with content
  \<open>y\<close>.
\<close>

theorem named_meta_latest_only:
  "length (filter (\<lambda>h. namedMeta v h \<and> \<not> hasAutoKey h) (reduceHeadInstances refs options)) \<le> 1
   \<and> (filter (\<lambda>h. namedMeta v h \<and> \<not> hasAutoKey h) (reduceHeadInstances refs options) = []
      \<or> filter (\<lambda>h. namedMeta v h \<and> \<not> hasAutoKey h) (reduceHeadInstances refs options)
          = map (\<lambda>c. assignKeyClass c 0)
              (take 1 (filter (\<lambda>h. namedMeta v h \<and> \<not> hasAutoKey h)
                         (filterInput refs options))))
   \<and> ((\<forall>h. take 1 (filter (\<lambda>h. namedMeta v h \<and> \<not> hasAutoKey h) (filterInput refs options)) = [h]
           \<longrightarrow> \<not> hasOwnProperty h ''httpEquiv'' \<and> \<not> hasOwnProperty h ''charSet''
               \<and> \<not> hasOwnProperty h ''itemProp'')
        \<longrightarrow> filter (\<lambda>h. namedMeta v h \<and> \<not> hasAutoKey h) (reduceHeadInstances refs options)
          = map (\<lambda>c. assignKeyClass c 0)
              (take 1 (filter (\<lambda>h. namedMeta v h \<and> \<not> hasAutoKey h)
                         (filterInput refs options))))"
proof -
  let ?P = "\<lambda>h. namedMeta v h \<and> \<not> hasAutoKey h"
  let ?xs = "filterInput refs options"
  have out: "filter ?P (reduceHeadInstances refs options)
      = map (\<lambda>c. assignKeyClass c 0) (rev (filter ?P (filterUnique unique ?xs)))"
    by (rule filter_reduceHeadInstances [of ?P, OF named_assignKeyClass])
  have cases: "filter ?P (filterUnique unique ?xs) = []
      \<or> filter ?P (filterUnique unique ?xs) = take 1 (filter ?P ?xs)"
    by (rule filterUnique_named)
  have rev1: "rev (take 1 (filter ?P ?xs)) = take 1 (filter ?P ?xs)"
    by (rule take1_rev_length) simp
  have 1: "length (filter ?P (reduceHeadInstances refs options)) \<le> 1"
    using cases out by auto
  have 2: "filter ?P (reduceHeadInstances refs options) = []
      \<or> filter ?P (reduceHeadInstances refs options)
          = map (\<lambda>c. assignKeyClass c 0) (take 1 (filter ?P ?xs))"
    using cases out rev1 by auto
  have 3: "filter ?P (reduceHeadInstances refs options)
          = map (\<lambda>c. assignKeyClass c 0) (take 1 (filter ?P ?xs))"
    if "\<forall>h. take 1 (filter ?P ?xs) = [h]
           \<longrightarrow> \<not> hasOwnProperty h ''httpEquiv'' \<and> \<not> hasOwnProperty h ''charSet''
               \<and> \<not> hasOwnProperty h ''itemProp''"
    using filterUnique_named_survives [OF that] out rev1 by simp
  show ?thesis using 1 2 3 by blast
qed

theorem named_meta_latest_only_witness:
  "filter (\<lambda>h. namedMeta (JStr ''description'') h \<and> \<not> hasAutoKey h)
     (reduceHeadInstances
        [\<lparr> current = NElem (Elem (Tag ''meta'') None
             [(''name'', JStr ''description''), (''content'', JStr ''x'')] NEmpty) \<rparr>,
         \<lparr> current = NElem (Elem (Tag ''meta'') None
             [(''name'', JStr ''description''), (''content'', JStr ''y'')] NEmpty) \<rparr>]
        \<lparr> inAmpMode = Some False \<rparr>)
   = [Elem (Tag ''meta'') (Some ''.0'')
        [(''name'', JStr ''description''), (''content'', JStr ''y''),
         (''className'', JStr ''next-head'')] NEmpty]"
  using named_meta_latest_only
     [of "JStr ''description''"
         "[\<lparr> current = NElem (Elem (Tag ''meta'') None
             [(''name'', JStr ''description''), (''content'', JStr ''x'')] NEmpty) \<rparr>,
         \<lparr> current = NElem (Elem (Tag ''meta'') None
             [(''name'', JStr ''description''), (''content'', JStr ''y'')] NEmpty) \<rparr>]"
         "\<lparr> inAmpMode = Some False \<rparr>"]
  by (simp add: filterInput_def flattenInstances_def collectChildren_def toArray_def
        natToString.simps digitChar_def defaultHeadOpt_def defaultHead_eq hasAutoKey_def
        hasOwnProperty_def getProp_def assignKeyClass_def cloneElement_def namedMeta_def)

subsection \<open>Elements whose key starts with \<open>.$\<close>\<close>

text \<open>
  C7. An element whose key starts with \<open>.$\<close> is checked against the keys alone: of
  the elements of the flattened contributions with such a key, exactly those come out that
  no later one shares the key with, whatever their tags and attributes; and the filter
  step for such an element reads and changes the set of keys only, so the rules for title,
  base and meta never see it.
\<close>

theorem auto_key_dedup:
  "filter hasAutoKey (reduceHeadInstances refs options)
     = map (\<lambda>c. assignKeyClass c 0) (lastByKey (filter hasAutoKey (flattenInstances refs)))
   \<and> (hasAutoKey h \<longrightarrow>
        uniqueStep st h
          = (the (key h) \<notin> keys st, st\<lparr>keys := insert (the (key h)) (keys st)\<rparr>))"
  by (simp add: auto_survivors uniqueStep_auto)

theorem auto_key_dedup_witness:
  "filter hasAutoKey
     (reduceHeadInstances
        [\<lparr> current = NArray
             [NElem (Elem (Tag ''title'') (Some ''k'') [] (NText ''A'')),
              NElem (Elem (Tag ''title'') (Some ''z'') [] (NText ''Z'')),
              NElem (Elem (Tag ''title'') None [] (NText ''T''))] \<rparr>,
         \<lparr> current = NElem (Elem (Tag ''meta'') (Some ''k'') [(''charSet'', JStr ''utf-8'')] NEmpty) \<rparr>]
        \<lparr> inAmpMode = Some False \<rparr>)
   = [Elem (Tag ''title'') (Some ''.$z'') [(''className'', JUndefined)] (NText ''Z''),
      Elem (Tag ''meta'') (Some ''.$k'')
        [(''charSet'', JStr ''utf-8''), (''className'', JStr ''next-head'')] NEmpty]
   \<and> uniqueStep (unique\<lparr>tags := {''title''}\<rparr>)
        (Elem (Tag ''title'') (Some ''.$z'') [] (NText ''Z''))
      = (True, unique\<lparr>keys := {''.$z''}, tags := {''title''}\<rparr>)"
  using auto_key_dedup
     [of "[\<lparr> current = NArray
             [NElem (Elem (Tag ''title'') (Some ''k'') [] (NText ''A'')),
              NElem (Elem (Tag ''title'') (Some ''z'') [] (NText ''Z'')),
              NElem (Elem (Tag ''title'') None [] (NText ''T''))] \<rparr>,
         \<lparr> current = NElem (Elem (Tag ''meta'') (Some ''k'') [(''charSet'', JStr ''utf-8'')] NEmpty) \<rparr>]"
         "\<lparr> inAmpMode = Some False \<rparr>"
         "Elem (Tag ''title'') (Some ''.$z'') [] (NText ''Z'')"
         "unique\<lparr>tags := {''title''}\<rparr>"]
  by (simp add: flattenInstances_def collectChildren_def toArray_def natToString.simps
        digitChar_def hasAutoKey_def assignKeyClass_def cloneElement_def getProp_def unique_def)

subsection \<open>A meta element that is dropped after it was recorded\<close>

text \<open>
  C10. The loop over \<open>METATYPES\<close> records each attribute of a meta as it passes it, and
  keeps what it has recorded when it returns \<open>false\<close> at a later attribute. For a meta
  whose key does not start with \<open>.$\<close>: its name is in the state after the step in every
  case; its httpEquiv value is, unless the step has returned at the name; charSet is,
  unless the step has returned at the name or at httpEquiv; its itemProp value is, unless
  the step has returned at one of the three before; and the step returns \<open>false\<close> exactly
  when one of the four checks finds the state marked. So when such a meta with a name is
  dropped, every meta with that name (and a key not starting with \<open>.$\<close>) that the filter
  reads after it is dropped too. There is an input on which this loses an element that
  would have come out: of three instances, the description meta registered first is lost to
  the description meta with a charSet registered second, which is itself lost to the charSet
  meta registered third; without the second instance, the first one's meta comes out.
\<close>

theorem rejected_meta_still_recorded:
  assumes "elemType h = Tag ''meta''" "\<not> hasAutoKey h"
  shows
  "(hasOwnProperty h ''name'' \<longrightarrow>
      getProp h ''name'' \<in> categoriesOf (snd (uniqueStep st h)) ''name'')
   \<and> (hasOwnProperty h ''httpEquiv'' \<and> \<not> seenBefore st h ''name'' \<longrightarrow>
      getProp h ''httpEquiv'' \<in> categoriesOf (snd (uniqueStep st h)) ''httpEquiv'')
   \<and> (hasOwnProperty h ''charSet'' \<and> \<not> seenBefore st h ''name''
        \<and> \<not> seenBefore st h ''httpEquiv'' \<longrightarrow>
      ''charSet'' \<in> metaTypes (snd (uniqueStep st h)))
   \<and> (hasOwnProperty h ''itemProp'' \<and> \<not> seenBefore st h ''name''
        \<and> \<not> seenBefore st h ''httpEquiv'' \<and> \<not> seenBefore st h ''charSet'' \<longrightarrow>
      getProp h ''itemProp'' \<in> categoriesOf (snd (uniqueStep st h)) ''itemProp'')
   \<and> fst (uniqueStep st h)
       = (\<not> seenBefore st h ''name'' \<and> \<not> seenBefore st h ''httpEquiv''
          \<and> \<not> seenBefore st h ''charSet'' \<and> \<not> seenBefore st h ''itemProp'')
   \<and> (hasOwnProperty h ''name'' \<and> \<not> fst (uniqueStep st h) \<longrightarrow>
      filter (\<lambda>x. namedMeta (getProp h ''name'') x \<and> \<not> hasAutoKey x)
        (filterUnique st (h # hs)) = [])
   \<and> reduceHeadInstances
       [\<lparr> current = NElem (Elem (Tag ''meta'') None
             [(''name'', JStr ''description''), (''content'', JStr ''x'')] NEmpty) \<rparr>,
        \<lparr> current = NElem (Elem (Tag ''meta'') None
             [(''name'', JStr ''description''), (''charSet'', JStr ''utf-8'')] NEmpty) \<rparr>,
        \<lparr> current = NElem (Elem (Tag ''meta'') None [(''charSet'', JStr ''utf-8'')] NEmpty) \<rparr>]
       \<lparr> inAmpMode = Some False \<rparr>
     = [Elem (Tag ''meta'') (Some ''viewport'')
          [(''name'', JStr ''viewport''),
           (''content'', JStr ''width=device-width,minimum-scale=1,initial-scale=1''),
           (''className'', JStr ''next-head'')] NEmpty,
        Elem (Tag ''meta'') (Some ''.0'')
          [(''charSet'', JStr ''utf-8''), (''className'', JStr ''next-head'')] NEmpty]
   \<and> reduceHeadInstances
       [\<lparr> current = NElem (Elem (Tag ''meta'') None
             [(''name'', JStr ''description''), (''content'', JStr ''x'')] NEmpty) \<rparr>,
        \<lparr> current = NElem (Elem (Tag ''meta'') None [(''charSet'', JStr ''utf-8'')] NEmpty) \<rparr>]
       \<lparr> inAmpMode = Some False \<rparr>
     = [Elem (Tag ''meta'') (Some ''viewport'')
          [(''name'', JStr ''viewport''),
           (''content'', JStr ''width=device-width,minimum-scale=1,initial-scale=1''),
           (''className'', JStr ''next-head'')] NEmpty,
        Elem (Tag ''meta'') (Some ''.0'')
          [(''name'', JStr ''description''), (''content'', JStr ''x''),
           (''className'', JStr ''next-head'')] NEmpty,
        Elem (Tag ''meta'') (Some ''.0'')
          [(''charSet'', JStr ''utf-8''), (''className'', JStr ''next-head'')] NEmpty]"
proof -
  have step: "uniqueStep st h = metaLoop METATYPES h st"
    using assms by (simp add: uniqueStep_meta)
  have records: "(hasOwnProperty h ''name'' \<longrightarrow>
      getProp h ''name'' \<in> categoriesOf (snd (uniqueStep st h)) ''name'')
   \<and> (hasOwnProperty h ''httpEquiv'' \<and> \<not> seenBefore st h ''name'' \<longrightarrow>
      getProp h ''httpEquiv'' \<in> categoriesOf (snd (uniqueStep st h)) ''httpEquiv'')
   \<and> (hasOwnProperty h ''charSet'' \<and> \<not> seenBefore st h ''name''
        \<and> \<not> seenBefore st h ''httpEquiv'' \<longrightarrow>
      ''charSet'' \<in> metaTypes (snd (uniqueStep st h)))
   \<and> (hasOwnProperty h ''itemProp'' \<and> \<not> seenBefore st h ''name''
        \<and> \<not> seenBefore st h ''httpEquiv'' \<and> \<not> seenBefore st h ''charSet'' \<longrightarrow>
      getProp h ''itemProp'' \<in> categoriesOf (snd (uniqueStep st h)) ''itemProp'')
   \<and> fst (uniqueStep st h)
       = (\<not> seenBefore st h ''name'' \<and> \<not> seenBefore st h ''httpEquiv''
          \<and> \<not> seenBefore st h ''charSet'' \<and> \<not> seenBefore st h ''itemProp'')"
    unfolding step by (rule metaLoop_records)
  have blocks: "hasOwnProperty h ''name'' \<and> \<not> fst (uniqueStep st h) \<longrightarrow>
      filter (\<lambda>x. namedMeta (getProp h ''name'') x \<and> \<not> hasAutoKey x)
        (filterUnique st (h # hs)) = []"
    using rejected_name_blocks [OF assms] by blast
  have chain3: "reduceHeadInstances
       [\<lparr> current = NElem (Elem (Tag ''meta'') None
             [(''name'', JStr ''description''), (''content'', JStr ''x'')] NEmpty) \<rparr>,
        \<lparr> current = NElem (Elem (Tag ''meta'') None
             [(''name'', JStr ''description''), (''charSet'', JStr ''utf-8'')] NEmpty) \<rparr>,
        \<lparr> current = NElem (Elem (Tag ''meta'') None [(''charSet'', JStr ''utf-8'')] NEmpty) \<rparr>]
       \<lparr> inAmpMode = Some False \<rparr>
     = [Elem (Tag ''meta'') (Some ''viewport'')
          [(''name'', JStr ''viewport''),
           (''content'', JStr ''width=device-width,minimum-scale=1,initial-scale=1''),
           (''className'', JStr ''next-head'')] NEmpty,
        Elem (Tag ''meta'') (Some ''.0'')
          [(''charSet'', JStr ''utf-8''), (''className'', JStr ''next-head'')] NEmpty]"
    by (simp add: head_eval)
  have chain2: "reduceHeadInstances
       [\<lparr> current = NElem (Elem (Tag ''meta'') None
             [(''name'', JStr ''description''), (''content'', JStr ''x'')] NEmpty) \<rparr>,
        \<lparr> current = NElem (Elem (Tag ''meta'') None [(''charSet'', JStr ''utf-8'')] NEmpty) \<rparr>]
       \<lparr> inAmpMode = Some False \<rparr>
     = [Elem (Tag ''meta'') (Some ''viewport'')
          [(''name'', JStr ''viewport''),
           (''content'', JStr ''width=device-width,minimum-scale=1,initial-scale=1''),
           (''className'', JStr ''next-head'')] NEmpty,
        Elem (Tag ''meta'') (Some ''.0'')
          [(''name'', JStr ''description''), (''content'', JStr ''x''),
           (''className'', JStr ''next-head'')] NEmpty,
        Elem (Tag ''meta'') (Some ''.0'')
          [(''charSet'', JStr ''utf-8''), (''className'', JStr ''next-head'')] NEmpty]"
    by (simp add: head_eval)
  from records blocks chain3 chain2 show ?thesis
    by (elim conjE, intro conjI)
qed

theorem rejected_meta_still_recorded_witness:
  "\<not> fst (uniqueStep (unique\<lparr>metaTypes := {''charSet''}\<rparr>)
            (Elem (Tag ''meta'') (Some ''.0'')
               [(''name'', JStr ''description''), (''httpEquiv'', JStr ''refresh''),
                (''charSet'', JStr ''utf-8'')] NEmpty))
   \<and> JStr ''description''
       \<in> categoriesOf
           (snd (uniqueStep (unique\<lparr>metaTypes := {''charSet''}\<rparr>)
                   (Elem (Tag ''meta'') (Some ''.0'')
                      [(''name'', JStr ''description''), (''httpEquiv'', JStr ''refresh''),
                       (''charSet'', JStr ''utf-8'')] NEmpty)))
           ''name''
   \<and> JStr ''refresh''
       \<in> categoriesOf
           (snd (uniqueStep (unique\<lparr>metaTypes := {''charSet''}\<rparr>)
                   (Elem (Tag ''meta'') (Some ''.0'')
                      [(''name'', JStr ''description''), (''httpEquiv'', JStr ''refresh''),
                       (''charSet'', JStr ''utf-8'')] NEmpty)))
           ''httpEquiv''
   \<and> filter (\<lambda>x. namedMeta (JStr ''description'') x \<and> \<not> hasAutoKey x)
       (filterUnique (unique\<lparr>metaTypes := {''charSet''}\<rparr>)
          [Elem (Tag ''meta'') (Some ''.0'')
             [(''name'', JStr ''description''), (''httpEquiv'', JStr ''refresh''),
              (''charSet'', JStr ''utf-8'')] NEmpty,
           Elem (Tag ''meta'') (Some ''.0'')
             [(''name'', JStr ''description''), (''content'', JStr ''x'')] NEmpty]) = []
   \<and> filterUnique (unique\<lparr>metaTypes := {''charSet''}\<rparr>)
          [Elem (Tag ''meta'') (Some ''.0'')
             [(''name'', JStr ''description''), (''content'', JStr ''x'')] NEmpty]
       = [Elem (Tag ''meta'') (Some ''.0'')
            [(''name'', JStr ''description''), (''content'', JStr ''x'')] NEmpty]"
proof -
  let ?st = "unique\<lparr>metaTypes := {''charSet''}\<rparr>"
  let ?h = "Elem (Tag ''meta'') (Some ''.0'')
              [(''name'', JStr ''description''), (''httpEquiv'', JStr ''refresh''),
               (''charSet'', JStr ''utf-8'')] NEmpty"
  let ?h' = "Elem (Tag ''meta'') (Some ''.0'')
               [(''name'', JStr ''description''), (''content'', JStr ''x'')] NEmpty"
  have meta: "elemType ?h = Tag ''meta''" and plain: "\<not> hasAutoKey ?h"
    by (simp_all add: hasAutoKey_def)
  have own: "hasOwnProperty ?h ''name''" "hasOwnProperty ?h ''httpEquiv''"
    "hasOwnProperty ?h ''charSet''"
    by (simp_all add: hasOwnProperty_def)
  have before: "\<not> seenBefore ?st ?h ''name''" "\<not> seenBefore ?st ?h ''httpEquiv''"
    "seenBefore ?st ?h ''charSet''"
    by (simp_all add: seenBefore_def hasOwnProperty_def getProp_def categoriesOf_def unique_def)
  have vals: "getProp ?h ''name'' = JStr ''description''"
    "getProp ?h ''httpEquiv'' = JStr ''refresh''"
    by (simp_all add: getProp_def)
  have alone: "filterUnique ?st [?h'] = [?h']"
    by (simp add: uniqueStep_def hasAutoKey_def METATYPES_def hasOwnProperty_def getProp_def
          unique_def)
  show ?thesis
    using rejected_meta_still_recorded [OF meta plain, of ?st "[?h']"] own before alone
    unfolding vals by blast
qed

end
